theory Spec2Isabelle
  imports Complex_Main "HOL-Library.AList"
begin

section \<open>The accounting expression processor of mis\_builder (models/aep.py)\<close>

text \<open>
  The development embeds \<^verbatim>\<open>AccountingExpressionProcessor\<close> of
  \<^verbatim>\<open>mis_builder/models/aep.py\<close>. Python floats are idealised as rationals, Python sets
  and dictionaries are lists in insertion order (a set without duplicates, a dictionary
  as an association list), a \<^verbatim>\<open>defaultdict\<close> is read with its default, and every
  \<^verbatim>\<open>raise\<close> of the source is a value \<open>Inl e\<close>.
\<close>

subsection \<open>Data\<close>

datatype error =
    UserError | AttributeError | KeyError | ZeroDivisionError | TypeError
  | UnboundLocalError | EvalError | AssertionError

text \<open>Dates are compared only; an ISO date string is ordered like its day number.\<close>

type_synonym date = nat

text \<open>The class constants \<^verbatim>\<open>MODE_VARIATION = 'p'\<close>, \<^verbatim>\<open>MODE_INITIAL = 'i'\<close>,
  \<^verbatim>\<open>MODE_END = 'e'\<close> and \<^verbatim>\<open>MODE_UNALLOCATED = 'u'\<close>.\<close>

datatype mode = MODE_VARIATION | MODE_INITIAL | MODE_END | MODE_UNALLOCATED

text \<open>The exchange rate dates \<^verbatim>\<open>n\<close> (now), \<^verbatim>\<open>s\<close> (date\_from), \<^verbatim>\<open>e\<close> (date\_to)
  and \<^verbatim>\<open>d\<close> (daily).\<close>

datatype rate_date = RD_n | RD_s | RD_e | RD_d

text \<open>A company of the recordset \<^verbatim>\<open>companies\<close>: its id and the id of its currency.\<close>

record company =
  company_id :: nat
  currency_id :: nat

text \<open>A search domain of the ORM: a list of operators and of terms
  \<^verbatim>\<open>(field, operator, value)\<close> in prefix notation.\<close>

datatype dval =
    VDate date | VBool bool | VStr string | VNum rat
  | VIds "nat list" | VCodes "string option list"

text \<open>\<^verbatim>\<open>TRUE_LEAF\<close> is the term \<^verbatim>\<open>(1, '=', 1)\<close> of \<^verbatim>\<open>odoo.osv.expression\<close>.\<close>

datatype tok = Op char | Leaf string string dval | TRUE_LEAF

type_synonym domain = "tok list"

type_synonym key = "domain \<times> mode \<times> rate_date option"

text \<open>The values of \<^verbatim>\<open>_map_account_ids\<close>: a set of account codes before
  \<^verbatim>\<open>done_parsing\<close>, a list of account ids after it. The code \<open>None\<close> stands for all
  accounts.\<close>

datatype acc_val = Codes "string option list" | Ids "nat list"

text \<open>Modelled from the spec: the module \<^verbatim>\<open>accounting_none.py\<close> that defines
  \<^verbatim>\<open>AccountingNone\<close> is not among the sources. An amount is a number or the
  distinguished value \<open>AccountingNone\<close> with \<open>Unset + x = x\<close>, \<open>x + Unset = x\<close>,
  \<open>Unset - x = -x\<close>, and the sum and the difference of two \<open>Unset\<close> are \<open>Unset\<close>.\<close>

datatype amount = AccountingNone | Num rat

fun an_add :: "amount \<Rightarrow> amount \<Rightarrow> amount" where
  "an_add AccountingNone y = y"
| "an_add x AccountingNone = x"
| "an_add (Num a) (Num b) = Num (a + b)"

fun an_sub :: "amount \<Rightarrow> amount \<Rightarrow> amount" where
  "an_sub AccountingNone AccountingNone = AccountingNone"
| "an_sub AccountingNone (Num b) = Num (- b)"
| "an_sub (Num a) AccountingNone = Num a"
| "an_sub (Num a) (Num b) = Num (a - b)"

text \<open>The keys of \<^verbatim>\<open>_data\<close> are Python tuples: \<^verbatim>\<open>do_queries\<close> uses
  \<^verbatim>\<open>(domain, mode, exchange_rate_date)\<close>, \<^verbatim>\<open>_get_balances\<close> reads
  \<^verbatim>\<open>((), mode)\<close>. Tuples of different lengths are different keys.\<close>

datatype pykey = K3 domain mode "rate_date option" | K2 domain mode

type_synonym acc_data = "(nat \<times> amount \<times> amount) list"

record account =
  acc_id :: nat
  acc_code :: string
  acc_company_id :: nat

text \<open>A row of \<^verbatim>\<open>read_group\<close> grouped by account and company, and a row of the SQL query
  grouped by account, company currency and \<^verbatim>\<open>date_maturity\<close>. A sum is \<open>None\<close> when
  SQL returns NULL.\<close>

record rg_row =
  rg_debit :: "rat option"
  rg_credit :: "rat option"
  rg_account_id :: nat
  rg_company_id :: nat

record sql_row =
  sq_debit :: "rat option"
  sq_credit :: "rat option"
  sq_account_id :: nat
  sq_company_currency_id :: nat
  sq_date :: "date option"

text \<open>The collaborators the processor reaches through \<^verbatim>\<open>self.companies.env\<close> and the
  library: the account table, the fiscal year of the companies, the currency directory,
  the two ledger queries (by model name and domain), \<^verbatim>\<open>safe_eval\<close> (\<open>None\<close> when it
  raises) and \<^verbatim>\<open>repr\<close> of a float.\<close>

record env =
  accounts :: "account list"
  fiscalyear_date_from :: "date \<Rightarrow> date"
  currency_rate :: "nat \<Rightarrow> date option \<Rightarrow> rat"
  currency_decimal_places :: "nat \<Rightarrow> nat"
  read_group :: "string \<Rightarrow> domain \<Rightarrow> rg_row list"
  sql_fetchall :: "string \<Rightarrow> domain \<Rightarrow> sql_row list"
  safe_eval :: "string \<Rightarrow> domain option"
  float_repr :: "rat \<Rightarrow> string"

text \<open>The processor. \<open>currency\<close> is a recordset of at most one currency (\<open>None\<close> is the
  empty recordset); \<open>data\<close> is \<open>None\<close> until \<^verbatim>\<open>do_queries\<close> creates \<^verbatim>\<open>_data\<close>.\<close>

record aep =
  companies :: "company list"
  currency :: "nat option"
  exchange_rate_date :: "rate_date option"
  dp :: nat
  map_account_ids :: "(key \<times> acc_val) list"
  account_ids_by_code :: "(string option \<times> nat list) list"
  smart_end :: bool
  data :: "(pykey \<Rightarrow> acc_data) option"

subsection \<open>Construction\<close>

text \<open>\<^verbatim>\<open>companies.mapped('currency_id')\<close>: the recordset of the distinct currencies.\<close>

definition mapped_currency_id :: "company list \<Rightarrow> nat list" where
  "mapped_currency_id cs = remdups (map currency_id cs)"

text \<open>\<^verbatim>\<open>self.currency.decimal_places\<close>: a field of the empty recordset reads as
  \<^verbatim>\<open>False\<close>, that is 0.\<close>

definition recordset_decimal_places :: "env \<Rightarrow> nat option \<Rightarrow> nat" where
  "recordset_decimal_places e cur =
     (case cur of None \<Rightarrow> 0 | Some c \<Rightarrow> currency_decimal_places e c)"

definition new_aep :: "env \<Rightarrow> company list \<Rightarrow> nat option \<Rightarrow> rate_date option \<Rightarrow> aep" where
  "new_aep e cs cur erd =
     \<lparr> companies = cs, currency = cur, exchange_rate_date = erd,
       dp = recordset_decimal_places e cur,
       map_account_ids = [], account_ids_by_code = [],
       smart_end = True, data = None \<rparr>"

text \<open>\<^verbatim>\<open>__init__(self, companies, currency=None, exchange_rate_date='n')\<close>.\<close>

definition init ::
  "env \<Rightarrow> company list \<Rightarrow> nat option \<Rightarrow> rate_date option \<Rightarrow> error + aep" where
  "init e cs cur erd =
     (case cur of
        None \<Rightarrow>
          (let cur' = mapped_currency_id cs in
           if length cur' > 1 then Inl UserError
           else Inr (new_aep e cs (case cur' of [] \<Rightarrow> None | c # _ \<Rightarrow> Some c) erd))
      | Some c \<Rightarrow> Inr (new_aep e cs (Some c) erd))"

subsection \<open>Library functions of Odoo\<close>

text \<open>\<^verbatim>\<open>odoo.tools.float_utils\<close>, on exact numbers: \<^verbatim>\<open>float_round\<close> rounds half away
  from zero to a multiple of the rounding factor and returns 0 when the factor or the value
  is 0; \<^verbatim>\<open>float_is_zero(value, precision_rounding=epsilon)\<close> is
  \<^verbatim>\<open>abs(float_round(value, precision_rounding=epsilon)) < epsilon\<close>.\<close>

definition float_round :: "rat \<Rightarrow> rat \<Rightarrow> rat" where
  "float_round v rounding_factor =
     (if rounding_factor = 0 \<or> v = 0 then 0
      else sgn (v / rounding_factor) *
           of_int \<lfloor>\<bar>v / rounding_factor\<bar> + 1 / 2\<rfloor> * rounding_factor)"

definition float_is_zero :: "rat \<Rightarrow> rat \<Rightarrow> bool" where
  "float_is_zero v epsilon = (\<bar>float_round v epsilon\<bar> < epsilon)"

text \<open>\<^verbatim>\<open>expression.normalize_domain\<close>: the implicit \<^verbatim>\<open>'&'\<close> operators are made
  explicit; the final assertion is that the domain is well formed.\<close>

definition op_arity :: "char \<Rightarrow> int" where
  "op_arity c = (if c = CHR ''!'' then 1 else if c = CHR ''&'' \<or> c = CHR ''|'' then 2 else 0)"

fun normalize_loop :: "tok list \<Rightarrow> int \<Rightarrow> tok list \<Rightarrow> int \<times> tok list" where
  "normalize_loop [] expected result = (expected, result)"
| "normalize_loop (token # rest) expected result =
     (let result1 = (if expected = 0 then Op CHR ''&'' # result else result);
          expected1 = (if expected = 0 then 1 else expected);
          result2 = result1 @ [token];
          expected2 = (case token of Op c \<Rightarrow> expected1 + (op_arity c - 1)
                                   | _ \<Rightarrow> expected1 - 1)
      in normalize_loop rest expected2 result2)"

definition normalize_domain :: "domain \<Rightarrow> error + domain" where
  "normalize_domain d =
     (if d = [] then Inr [TRUE_LEAF]
      else (case normalize_loop d 1 [] of
              (expected, result) \<Rightarrow> if expected = 0 then Inr result else Inl AssertionError))"

subsection \<open>The domain on the dates of the move lines\<close>

text \<open>\<^verbatim>\<open>get_aml_domain_for_dates(self, date_from, date_to, mode, target_move)\<close>. The start
  of the fiscal year comes from \<^verbatim>\<open>self.companies.compute_fiscalyear_dates\<close>.\<close>

definition get_aml_domain_for_dates ::
  "env \<Rightarrow> date \<Rightarrow> date \<Rightarrow> mode \<Rightarrow> string \<Rightarrow> error + domain" where
  "get_aml_domain_for_dates e date_from date_to mode target_move =
     (let fy_date_from = fiscalyear_date_from e date_from;
          domain =
            (case mode of
               MODE_VARIATION \<Rightarrow>
                 [Leaf ''date'' ''>='' (VDate date_from), Leaf ''date'' ''<='' (VDate date_to)]
             | MODE_INITIAL \<Rightarrow>
                 [Op CHR ''|'',
                  Leaf ''date'' ''>='' (VDate fy_date_from),
                  Leaf ''user_type_id.include_initial_balance'' ''='' (VBool True)]
                 @ [Leaf ''date'' ''<'' (VDate date_from)]
             | MODE_END \<Rightarrow>
                 [Op CHR ''|'',
                  Leaf ''date'' ''>='' (VDate fy_date_from),
                  Leaf ''user_type_id.include_initial_balance'' ''='' (VBool True)]
                 @ [Leaf ''date'' ''<='' (VDate date_to)]
             | MODE_UNALLOCATED \<Rightarrow>
                 [Leaf ''date'' ''<'' (VDate fy_date_from),
                  Leaf ''user_type_id.include_initial_balance'' ''='' (VBool False)]);
          domain1 =
            (if target_move = ''posted''
             then domain @ [Leaf ''move_id.state'' ''='' (VStr ''posted'')] else domain)
      in normalize_domain domain1)"

subsection \<open>The meaning of a domain on a move line\<close>

text \<open>The fields of a move line that the domains built here read.\<close>

record aml =
  aml_date :: date
  aml_include_initial_balance :: bool
  aml_state :: string
  aml_account_id :: nat

fun leaf_holds :: "aml \<Rightarrow> tok \<Rightarrow> bool" where
  "leaf_holds r TRUE_LEAF = True"
| "leaf_holds r (Leaf f opr (VDate d)) =
     (f = ''date'' \<and>
      (if opr = ''>='' then d \<le> aml_date r
       else if opr = ''<='' then aml_date r \<le> d
       else if opr = ''<'' then aml_date r < d
       else False))"
| "leaf_holds r (Leaf f opr (VBool b)) =
     (f = ''user_type_id.include_initial_balance'' \<and> opr = ''='' \<and>
      aml_include_initial_balance r = b)"
| "leaf_holds r (Leaf f opr (VStr s)) =
     (f = ''move_id.state'' \<and> opr = ''='' \<and> aml_state r = s)"
| "leaf_holds r (Leaf f opr (VIds ids)) =
     (f = ''account_id'' \<and> opr = ''in'' \<and> aml_account_id r \<in> set ids)"
| "leaf_holds r _ = False"

text \<open>A domain in prefix notation is evaluated from the right with a stack, as the ORM
  does: a term pushes its truth value, an operator combines the values on top.\<close>

fun domain_step :: "aml \<Rightarrow> tok \<Rightarrow> bool list \<Rightarrow> bool list" where
  "domain_step r (Op c) stack =
     (if c = CHR ''!'' then (case stack of a # st \<Rightarrow> (\<not> a) # st | _ \<Rightarrow> [])
      else if c = CHR ''&'' then (case stack of a # b # st \<Rightarrow> (a \<and> b) # st | _ \<Rightarrow> [])
      else if c = CHR ''|'' then (case stack of a # b # st \<Rightarrow> (a \<or> b) # st | _ \<Rightarrow> [])
      else [])"
| "domain_step r t stack = leaf_holds r t # stack"

definition domain_holds :: "aml \<Rightarrow> domain \<Rightarrow> bool" where
  "domain_holds r d = (foldr (domain_step r) d [] = [True])"

subsection \<open>The regular expression of the accounting variables\<close>

text \<open>
  \<^verbatim>\<open>_ACC_RE\<close> is
  \<^verbatim>\<open>(?P<field>\bbal|\bcrd|\bdeb)(?P<mode>[piseu])?(?P<accounts>_[a-zA-Z0-9]+|\[.*?\])\<close>
  \<^verbatim>\<open>(?P<domain>\[.*?\])?(?P<exchange_rate_date>[send])?\<close>.
  Matching it at a position needs no backtracking: a mode letter can start neither form of
  the accounts; the two optional groups after the accounts never fail, so the greedy
  \<^verbatim>\<open>[a-zA-Z0-9]+\<close> takes the longest run and the lazy \<^verbatim>\<open>.*?\<close> stops at the first
  \<^verbatim>\<open>]\<close>; \<^verbatim>\<open>.\<close> does not match a newline.
\<close>

definition is_alnum :: "char \<Rightarrow> bool" where
  "is_alnum c =
     (c \<in> set ''abcdefghijklmnopqrstuvwxyzABCDEFGHIJKLMNOPQRSTUVWXYZ0123456789'')"

definition is_word_char :: "char \<Rightarrow> bool" where
  "is_word_char c = (is_alnum c \<or> c = CHR ''_'')"

record match_obj =
  mo_field :: string
  mo_mode :: "char option"
  mo_accounts :: string
  mo_domain :: "string option"
  mo_exchange_rate_date :: "char option"
  mo_text :: string

text \<open>\<^verbatim>\<open>\[.*?\]\<close> and \<^verbatim>\<open>_[a-zA-Z0-9]+\<close> at the start of a string: the text matched and
  the rest.\<close>

definition re_bracket :: "string \<Rightarrow> (string \<times> string) option" where
  "re_bracket s =
     (case s of
        [] \<Rightarrow> None
      | c # cs \<Rightarrow>
          if c = CHR ''[''
          then (let body = takeWhile (\<lambda>x. x \<noteq> CHR '']'') cs in
                if length body < length cs \<and> CHR 0x0A \<notin> set body
                then Some (c # body @ '']'', drop (Suc (length body)) cs)
                else None)
          else None)"

definition re_ident :: "string \<Rightarrow> (string \<times> string) option" where
  "re_ident s =
     (case s of
        [] \<Rightarrow> None
      | c # cs \<Rightarrow>
          if c = CHR ''_'' \<and> takeWhile is_alnum cs \<noteq> []
          then Some (c # takeWhile is_alnum cs, dropWhile is_alnum cs)
          else None)"

definition re_optional_char :: "string \<Rightarrow> string \<Rightarrow> char option \<times> string" where
  "re_optional_char cls s =
     (case s of
        [] \<Rightarrow> (None, s)
      | c # cs \<Rightarrow> if c \<in> set cls then (Some c, cs) else (None, s))"

text \<open>The match of \<^verbatim>\<open>_ACC_RE\<close> that starts at the head of the string, the word
  boundary before it apart.\<close>

definition acc_re_match :: "string \<Rightarrow> match_obj option" where
  "acc_re_match s =
     (if take 3 s = ''bal'' \<or> take 3 s = ''crd'' \<or> take 3 s = ''deb''
      then (case re_optional_char ''piseu'' (drop 3 s) of
              (mode, r1) \<Rightarrow>
                (case (case re_ident r1 of Some x \<Rightarrow> Some x | None \<Rightarrow> re_bracket r1) of
                   None \<Rightarrow> None
                 | Some (accs, r2) \<Rightarrow>
                     (case (case re_bracket r2 of
                              Some (d, r) \<Rightarrow> (Some d, r) | None \<Rightarrow> (None, r2)) of
                        (dm, r3) \<Rightarrow>
                          (case re_optional_char ''send'' r3 of
                             (erd, r4) \<Rightarrow>
                               Some \<lparr> mo_field = take 3 s, mo_mode = mode,
                                      mo_accounts = accs, mo_domain = dm,
                                      mo_exchange_rate_date = erd,
                                      mo_text = take (length s - length r4) s \<rparr>))))
      else None)"

text \<open>\<^verbatim>\<open>finditer\<close>: the string is scanned from the left; a match is tried where the
  previous character is not a word character (\<^verbatim>\<open>\b\<close> before a letter), and the scan
  resumes after the match. The first argument counts the characters of the current match
  still to skip.\<close>

datatype piece = Lit char | Match match_obj

fun finditer_from :: "nat \<Rightarrow> bool \<Rightarrow> string \<Rightarrow> piece list" where
  "finditer_from k w [] = []"
| "finditer_from (Suc k) w (c # cs) = finditer_from k (is_word_char c) cs"
| "finditer_from 0 w (c # cs) =
     (case (if w then None else acc_re_match (c # cs)) of
        Some m \<Rightarrow> Match m # finditer_from (length (mo_text m) - 1) (is_word_char c) cs
      | None \<Rightarrow> Lit c # finditer_from 0 (is_word_char c) cs)"

definition finditer :: "string \<Rightarrow> piece list" where
  "finditer expr = finditer_from 0 False expr"

text \<open>\<^verbatim>\<open>has_account_var\<close>: \<^verbatim>\<open>bool(cls._ACC_RE.search(expr))\<close>.\<close>

definition has_account_var :: "string \<Rightarrow> bool" where
  "has_account_var expr = (\<exists>p \<in> set (finditer expr). case p of Match m \<Rightarrow> True | Lit c \<Rightarrow> False)"

subsection \<open>Parsing\<close>

definition is_space :: "char \<Rightarrow> bool" where
  "is_space c = (c \<in> set [CHR '' '', CHR 0x09, CHR 0x0A, CHR 0x0B, CHR 0x0C, CHR 0x0D])"

definition py_strip :: "string \<Rightarrow> string" where
  "py_strip s = rev (dropWhile is_space (rev (dropWhile is_space s)))"

fun py_split :: "char \<Rightarrow> string \<Rightarrow> string list" where
  "py_split sep [] = [[]]"
| "py_split sep (c # cs) =
     (if c = sep then [] # py_split sep cs
      else (case py_split sep cs of x # xs \<Rightarrow> (c # x) # xs | [] \<Rightarrow> [[c]]))"

text \<open>The mode and rate date letters of a match; the regular expression admits no other
  letter than those listed.\<close>

definition mode_of_char :: "char \<Rightarrow> mode" where
  "mode_of_char c =
     (if c = CHR ''i'' then MODE_INITIAL
      else if c = CHR ''e'' then MODE_END
      else if c = CHR ''u'' then MODE_UNALLOCATED
      else MODE_VARIATION)"

definition rate_date_of_char :: "char \<Rightarrow> rate_date" where
  "rate_date_of_char c =
     (if c = CHR ''s'' then RD_s
      else if c = CHR ''e'' then RD_e
      else if c = CHR ''n'' then RD_n
      else RD_d)"

text \<open>\<^verbatim>\<open>_parse_match_object\<close>: field, mode, account codes, domain and exchange rate
  date of a match.\<close>

definition parse_match_object ::
  "env \<Rightarrow> match_obj \<Rightarrow>
     error + (string \<times> mode \<times> string option list \<times> domain \<times> rate_date option)" where
  "parse_match_object e mo =
     (let mode = (case mo_mode mo of
                    None \<Rightarrow> MODE_VARIATION
                  | Some c \<Rightarrow> if c = CHR ''s'' then MODE_END else mode_of_char c);
          account_codes = (if take 1 (mo_accounts mo) = ''_''
                           then drop 1 (mo_accounts mo)
                           else butlast (drop 1 (mo_accounts mo)));
          account_codes1 = (if py_strip account_codes \<noteq> []
                            then map (\<lambda>a. Some (py_strip a)) (py_split CHR '','' account_codes)
                            else [None]);
          domain = (case mo_domain mo of None \<Rightarrow> ''[]'' | Some d \<Rightarrow> if d = [] then ''[]'' else d)
      in case safe_eval e domain of
           None \<Rightarrow> Inl EvalError
         | Some d \<Rightarrow>
             Inr (mo_field mo, mode, account_codes1, d,
                  map_option rate_date_of_char (mo_exchange_rate_date mo)))"

text \<open>A loop whose body may raise.\<close>

fun fold_err :: "('a \<Rightarrow> 's \<Rightarrow> error + 's) \<Rightarrow> 'a list \<Rightarrow> 's \<Rightarrow> error + 's" where
  "fold_err f [] s = Inr s"
| "fold_err f (x # xs) s = (case f x s of Inl e \<Rightarrow> Inl e | Inr s1 \<Rightarrow> fold_err f xs s1)"

text \<open>\<^verbatim>\<open>set.update\<close> on a set kept as a list without duplicates.\<close>

definition set_update :: "'a list \<Rightarrow> 'a list \<Rightarrow> 'a list" where
  "set_update s xs = fold (\<lambda>x acc. if x \<in> set acc then acc else acc @ [x]) xs s"

text \<open>\<^verbatim>\<open>self._map_account_ids[key].update(account_codes)\<close> on the
  \<^verbatim>\<open>defaultdict(set)\<close>: a missing key starts from the empty set; a list of ids, which
  \<^verbatim>\<open>done_parsing\<close> stores, has no \<^verbatim>\<open>update\<close>.\<close>

definition map_update_codes ::
  "key \<Rightarrow> string option list \<Rightarrow> (key \<times> acc_val) list \<Rightarrow> error + (key \<times> acc_val) list" where
  "map_update_codes k codes m =
     (case map_of m k of
        None \<Rightarrow> Inr (m @ [(k, Codes (set_update [] codes))])
      | Some (Codes cs) \<Rightarrow> Inr (AList.update k (Codes (set_update cs codes)) m)
      | Some (Ids ids) \<Rightarrow> Inl AttributeError)"

definition smart_modes :: "bool \<Rightarrow> mode \<Rightarrow> mode list" where
  "smart_modes smart m =
     (if m = MODE_END \<and> smart then [MODE_INITIAL, MODE_VARIATION, MODE_END] else [m])"

definition parse_piece ::
  "env \<Rightarrow> bool \<Rightarrow> piece \<Rightarrow> (key \<times> acc_val) list \<Rightarrow> error + (key \<times> acc_val) list" where
  "parse_piece e smart p m =
     (case p of
        Lit c \<Rightarrow> Inr m
      | Match mo \<Rightarrow>
          (case parse_match_object e mo of
             Inl err \<Rightarrow> Inl err
           | Inr (field, mode, account_codes, domain, ex_rate_date) \<Rightarrow>
               fold_err (\<lambda>mode1. map_update_codes (domain, mode1, ex_rate_date) account_codes)
                 (smart_modes smart mode) m))"

text \<open>\<^verbatim>\<open>parse_expr(self, expr)\<close>.\<close>

definition parse_expr :: "env \<Rightarrow> aep \<Rightarrow> string \<Rightarrow> error + aep" where
  "parse_expr e a expr =
     (case fold_err (parse_piece e (smart_end a)) (finditer expr) (map_account_ids a) of
        Inl err \<Rightarrow> Inl err
      | Inr m \<Rightarrow> Inr (a\<lparr>map_account_ids := m\<rparr>))"

subsection \<open>Loading the accounts\<close>

text \<open>A \<^verbatim>\<open>defaultdict(set)\<close> as an association list: reading a missing key gives the
  empty set and inserts it; \<^verbatim>\<open>d[k].update(xs)\<close> starts from the empty set.\<close>

definition dd_get :: "('k \<times> 'v list) list \<Rightarrow> 'k \<Rightarrow> 'v list" where
  "dd_get m k = (case map_of m k of None \<Rightarrow> [] | Some s \<Rightarrow> s)"

definition dd_touch :: "'k \<Rightarrow> ('k \<times> 'v list) list \<Rightarrow> ('k \<times> 'v list) list" where
  "dd_touch k m = (case map_of m k of None \<Rightarrow> m @ [(k, [])] | Some s \<Rightarrow> m)"

definition dd_set_update ::
  "'k \<Rightarrow> 'v list \<Rightarrow> ('k \<times> 'v list) list \<Rightarrow> ('k \<times> 'v list) list" where
  "dd_set_update k xs m =
     (case map_of m k of
        None \<Rightarrow> m @ [(k, set_update [] xs)]
      | Some s \<Rightarrow> AList.update k (set_update s xs) m)"

text \<open>The operator \<^verbatim>\<open>=like\<close> of the ORM is SQL \<^verbatim>\<open>LIKE\<close>: \<^verbatim>\<open>%\<close> stands for any
  string and \<^verbatim>\<open>_\<close> for any character (the escape character is left out).\<close>

fun like_match :: "string \<Rightarrow> string \<Rightarrow> bool" where
  "like_match [] s = (s = [])"
| "like_match (p # ps) [] = (p = CHR ''%'' \<and> like_match ps [])"
| "like_match (p # ps) (c # cs) =
     (if p = CHR ''%'' then like_match ps (c # cs) \<or> like_match (p # ps) cs
      else (p = CHR ''_'' \<or> p = c) \<and> like_match ps cs)"

text \<open>The three searches on \<^verbatim>\<open>account.account\<close>, each restricted to the companies.\<close>

definition in_companies :: "company list \<Rightarrow> account \<Rightarrow> bool" where
  "in_companies cs acc = (acc_company_id acc \<in> set (map company_id cs))"

definition search_all :: "env \<Rightarrow> company list \<Rightarrow> nat list" where
  "search_all e cs = map acc_id (filter (in_companies cs) (accounts e))"

definition search_like :: "env \<Rightarrow> company list \<Rightarrow> string \<Rightarrow> nat list" where
  "search_like e cs pat =
     map acc_id (filter (\<lambda>acc. like_match pat (acc_code acc) \<and> in_companies cs acc) (accounts e))"

definition search_exact :: "env \<Rightarrow> company list \<Rightarrow> string list \<Rightarrow> account list" where
  "search_exact e cs codes =
     filter (\<lambda>acc. acc_code acc \<in> set codes \<and> in_companies cs acc) (accounts e)"

text \<open>The body of the first loop of \<^verbatim>\<open>_load_account_codes\<close>, on the pair of
  \<^verbatim>\<open>_account_ids_by_code\<close> and \<^verbatim>\<open>exact_codes\<close>.\<close>

definition load_step ::
  "env \<Rightarrow> aep \<Rightarrow> string option \<Rightarrow>
     (string option \<times> nat list) list \<times> string list \<Rightarrow>
     (string option \<times> nat list) list \<times> string list" where
  "load_step e a account_code st =
     (case st of (by_code, exact_codes) \<Rightarrow>
        if map_of by_code account_code \<noteq> None then (by_code, exact_codes)
        else (case account_code of
                None \<Rightarrow> (dd_set_update None (search_all e (companies a)) by_code, exact_codes)
              | Some code \<Rightarrow>
                  if CHR ''%'' \<in> set code
                  then (dd_set_update (Some code) (search_like e (companies a) code) by_code,
                        exact_codes)
                  else (by_code, set_update exact_codes [code])))"

definition load_account_codes :: "env \<Rightarrow> aep \<Rightarrow> string option list \<Rightarrow> aep" where
  "load_account_codes e a account_codes =
     (case fold (load_step e a) account_codes (account_ids_by_code a, []) of
        (by_code, exact_codes) \<Rightarrow>
          a\<lparr>account_ids_by_code :=
              fold (\<lambda>acc. dd_set_update (Some (acc_code acc)) [acc_id acc])
                (search_exact e (companies a) exact_codes) by_code\<rparr>)"

text \<open>\<^verbatim>\<open>done_parsing\<close>, one key at a time. A value that is already a list of ids makes
  \<^verbatim>\<open>'%' in account_code\<close> a type error at its first id.\<close>

definition collect_ids ::
  "string option list \<Rightarrow> (string option \<times> nat list) list \<Rightarrow>
     (string option \<times> nat list) list \<times> nat list" where
  "collect_ids account_codes by_code =
     fold (\<lambda>account_code st. case st of (bc, account_ids) \<Rightarrow>
             (dd_touch account_code bc, set_update account_ids (dd_get bc account_code)))
       account_codes (by_code, [])"

definition done_parsing_step :: "env \<Rightarrow> key \<times> acc_val \<Rightarrow> aep \<Rightarrow> error + aep" where
  "done_parsing_step e kv a =
     (case kv of (k, v) \<Rightarrow>
        (case v of
           Codes account_codes \<Rightarrow>
             (let a1 = load_account_codes e a account_codes in
              case collect_ids account_codes (account_ids_by_code a1) of
                (bc, account_ids) \<Rightarrow>
                  Inr (a1\<lparr>account_ids_by_code := bc,
                           map_account_ids :=
                             AList.update k (Ids account_ids) (map_account_ids a1)\<rparr>))
         | Ids account_ids \<Rightarrow>
             if account_ids = []
             then Inr (a\<lparr>map_account_ids := AList.update k (Ids []) (map_account_ids a)\<rparr>)
             else Inl TypeError))"

definition done_parsing :: "env \<Rightarrow> aep \<Rightarrow> error + aep" where
  "done_parsing e a = fold_err (done_parsing_step e) (map_account_ids a) a"

subsection \<open>Exchange rates\<close>

text \<open>\<^verbatim>\<open>get_company_rates(self, date=None)\<close>: for each company the rate to the currency
  of the processor and the decimal places of the currency of the company. The rate of
  the empty recordset reads as 0.\<close>

definition used_currency_rate :: "env \<Rightarrow> aep \<Rightarrow> date option \<Rightarrow> rat" where
  "used_currency_rate e a d = (case currency a of None \<Rightarrow> 0 | Some c \<Rightarrow> currency_rate e c d)"

definition company_rate_step ::
  "env \<Rightarrow> aep \<Rightarrow> date option \<Rightarrow> company \<Rightarrow> (nat \<times> rat \<times> nat) list \<Rightarrow>
     error + (nat \<times> rat \<times> nat) list" where
  "company_rate_step e a d c company_rates =
     (if Some (currency_id c) \<noteq> currency a
      then (if currency_rate e (currency_id c) d = 0 then Inl ZeroDivisionError
            else Inr (AList.update (company_id c)
                        (used_currency_rate e a d / currency_rate e (currency_id c) d,
                         currency_decimal_places e (currency_id c)) company_rates))
      else Inr (AList.update (company_id c)
                  (1, currency_decimal_places e (currency_id c)) company_rates))"

definition get_company_rates ::
  "env \<Rightarrow> aep \<Rightarrow> date option \<Rightarrow> error + (nat \<times> rat \<times> nat) list" where
  "get_company_rates e a d = fold_err (company_rate_step e a d) (companies a) []"

subsection \<open>The queries\<close>

text \<open>The local state of the first loop of \<^verbatim>\<open>do_queries\<close>: \<^verbatim>\<open>company_rates\<close>
  (\<open>None\<close> while unbound), \<^verbatim>\<open>self._data\<close>, \<^verbatim>\<open>domain_by_mode\<close>, \<^verbatim>\<open>ends\<close>, and
  the queries sent to the ledger so far, each with the key it was sent for.\<close>

record dq_state =
  dq_company_rates :: "(nat \<times> rat \<times> nat) list option"
  dq_data :: "pykey \<Rightarrow> acc_data"
  dq_domain_by_mode :: "(mode \<times> domain) list"
  dq_ends :: "key list"
  dq_log :: "(key \<times> domain) list"

definition or_zero :: "rat option \<Rightarrow> rat" where
  "or_zero x = (case x of None \<Rightarrow> 0 | Some v \<Rightarrow> v)"

definition zero_suppressed :: "mode \<Rightarrow> rat \<Rightarrow> rat \<Rightarrow> nat \<Rightarrow> bool" where
  "zero_suppressed m debit credit decimals =
     ((m = MODE_INITIAL \<or> m = MODE_UNALLOCATED) \<and>
      float_is_zero (debit - credit) (of_nat decimals))"

text \<open>The body of the loop over the rows of \<^verbatim>\<open>read_group\<close>, on the dictionary
  \<^verbatim>\<open>self._data[key]\<close>.\<close>

definition rg_row_step ::
  "mode \<Rightarrow> (nat \<times> rat \<times> nat) list option \<Rightarrow> rg_row \<Rightarrow> acc_data \<Rightarrow> error + acc_data" where
  "rg_row_step m company_rates acc d =
     (case company_rates of
        None \<Rightarrow> Inl UnboundLocalError
      | Some rates \<Rightarrow>
          (case map_of rates (rg_company_id acc) of
             None \<Rightarrow> Inl KeyError
           | Some (rate, decimals) \<Rightarrow>
               (let debit = or_zero (rg_debit acc);
                    credit = or_zero (rg_credit acc)
                in if zero_suppressed m debit credit decimals then Inr d
                   else Inr (AList.update (rg_account_id acc)
                               (Num (debit * rate), Num (credit * rate)) d))))"

text \<open>The body of the loop over the rows of the SQL query of the daily rates.\<close>

definition sql_row_step :: "env \<Rightarrow> aep \<Rightarrow> mode \<Rightarrow> sql_row \<Rightarrow> acc_data \<Rightarrow> error + acc_data" where
  "sql_row_step e a m acc d =
     (let debit = or_zero (sq_debit acc);
          credit = or_zero (sq_credit acc);
          decimals = currency_decimal_places e (sq_company_currency_id acc)
      in if zero_suppressed m debit credit decimals then Inr d
         else if currency_rate e (sq_company_currency_id acc) (sq_date acc) = 0
         then Inl ZeroDivisionError
         else (let rate = used_currency_rate e a (sq_date acc) /
                          currency_rate e (sq_company_currency_id acc) (sq_date acc);
                   d1 = (case map_of d (sq_account_id acc) of
                           None \<Rightarrow> AList.update (sq_account_id acc) (Num 0, Num 0) d
                         | Some v \<Rightarrow> d)
               in case map_of d1 (sq_account_id acc) of
                    None \<Rightarrow> Inl KeyError
                  | Some (acc_debit, acc_credit) \<Rightarrow>
                      Inr (AList.update (sq_account_id acc)
                             (an_add acc_debit (Num (debit * rate)),
                              an_add acc_credit (Num (credit * rate))) d1)))"

definition rates_at ::
  "env \<Rightarrow> aep \<Rightarrow> date \<Rightarrow> date \<Rightarrow> rate_date \<Rightarrow> error + (nat \<times> rat \<times> nat) list option" where
  "rates_at e a date_from date_to rd =
     (case rd of
        RD_d \<Rightarrow> Inl UnboundLocalError
      | _ \<Rightarrow>
        (case get_company_rates e a
                (case rd of RD_e \<Rightarrow> Some date_to | RD_s \<Rightarrow> Some date_from | _ \<Rightarrow> None) of
           Inl err \<Rightarrow> Inl err
         | Inr rates \<Rightarrow> Inr (Some rates)))"

definition aml_model_name :: "string option \<Rightarrow> string" where
  "aml_model_name aml_model =
     (case aml_model of
        None \<Rightarrow> ''account.move.line''
      | Some n \<Rightarrow> if n = [] then ''account.move.line'' else n)"

definition account_id_leaf :: "acc_val option \<Rightarrow> tok" where
  "account_id_leaf v =
     Leaf ''account_id'' ''in''
       (case v of Some (Ids ids) \<Rightarrow> VIds ids | Some (Codes cs) \<Rightarrow> VCodes cs | None \<Rightarrow> VIds [])"

text \<open>The body of the loop \<^verbatim>\<open>for key in self._map_account_ids\<close>, in the order of the
  source: the exchange rates of the key, which replace \<^verbatim>\<open>company_rates\<close> for the keys
  that follow as well; the ending balances to postpone; the domain on the dates, computed
  once for each mode; the domain of the query; the query and the loop over its rows.\<close>

definition key_company_rates ::
  "env \<Rightarrow> aep \<Rightarrow> date \<Rightarrow> date \<Rightarrow> rate_date option \<Rightarrow> (nat \<times> rat \<times> nat) list option \<Rightarrow>
     error + (nat \<times> rat \<times> nat) list option" where
  "key_company_rates e a date_from date_to ex_rate_date company_rates =
     (case ex_rate_date of
        None \<Rightarrow> Inr company_rates
      | Some rd \<Rightarrow>
          if Some rd = exchange_rate_date a then Inr company_rates
          else if rd \<noteq> RD_d then rates_at e a date_from date_to rd
          else Inr company_rates)"

definition key_domain_by_mode ::
  "env \<Rightarrow> date \<Rightarrow> date \<Rightarrow> string \<Rightarrow> mode \<Rightarrow> (mode \<times> domain) list \<Rightarrow>
     error + (mode \<times> domain) list" where
  "key_domain_by_mode e date_from date_to target_move m domain_by_mode =
     (case map_of domain_by_mode m of
        Some dm \<Rightarrow> Inr domain_by_mode
      | None \<Rightarrow>
          (case get_aml_domain_for_dates e date_from date_to m target_move of
             Inl err \<Rightarrow> Inl err
           | Inr dm \<Rightarrow> Inr (domain_by_mode @ [(m, dm)])))"

definition key_domain :: "aep \<Rightarrow> key \<Rightarrow> (mode \<times> domain) list \<Rightarrow> domain option \<Rightarrow> domain" where
  "key_domain a k domain_by_mode additional_move_line_filter =
     (case k of (domain, m, ex_rate_date) \<Rightarrow>
        domain @ dd_get domain_by_mode m
          @ [account_id_leaf (map_of (map_account_ids a) k)]
          @ (case additional_move_line_filter of None \<Rightarrow> [] | Some f \<Rightarrow> f))"

definition key_rows ::
  "env \<Rightarrow> aep \<Rightarrow> string option \<Rightarrow> mode \<Rightarrow> (nat \<times> rat \<times> nat) list option \<Rightarrow> domain \<Rightarrow>
     acc_data \<Rightarrow> error + acc_data" where
  "key_rows e a aml_model m company_rates domain1 d =
     (if exchange_rate_date a = Some RD_d
      then fold_err (sql_row_step e a m) (sql_fetchall e (aml_model_name aml_model) domain1) d
      else fold_err (rg_row_step m company_rates)
             (read_group e (aml_model_name aml_model) domain1) d)"

definition key_step ::
  "env \<Rightarrow> aep \<Rightarrow> date \<Rightarrow> date \<Rightarrow> string \<Rightarrow> domain option \<Rightarrow> string option \<Rightarrow>
     key \<Rightarrow> dq_state \<Rightarrow> error + dq_state" where
  "key_step e a date_from date_to target_move additional_move_line_filter aml_model k st =
     (case k of (domain, m, ex_rate_date) \<Rightarrow>
        (case key_company_rates e a date_from date_to ex_rate_date (dq_company_rates st) of
           Inl err \<Rightarrow> Inl err
         | Inr company_rates \<Rightarrow>
             if m = MODE_END \<and> smart_end a
             then Inr (st\<lparr>dq_company_rates := company_rates,
                          dq_ends := dq_ends st @ [(domain, m, ex_rate_date)]\<rparr>)
             else
               (case key_domain_by_mode e date_from date_to target_move m
                       (dq_domain_by_mode st) of
                  Inl err \<Rightarrow> Inl err
                | Inr domain_by_mode \<Rightarrow>
                    (case key_rows e a aml_model m company_rates
                            (key_domain a k domain_by_mode additional_move_line_filter)
                            (dq_data st (K3 domain m ex_rate_date)) of
                       Inl err \<Rightarrow> Inl err
                     | Inr d \<Rightarrow>
                         Inr (st\<lparr>dq_company_rates := company_rates,
                                 dq_data := (dq_data st)(K3 domain m ex_rate_date := d),
                                 dq_domain_by_mode := domain_by_mode,
                                 dq_log := dq_log st
                                   @ [(k, key_domain a k domain_by_mode
                                            additional_move_line_filter)]\<rparr>)))))"

text \<open>The second loop: an ending balance that was postponed is the sum of the initial
  balance and of the variation for the same domain and rate date.\<close>

definition get_pair :: "acc_data \<Rightarrow> nat \<Rightarrow> amount \<times> amount" where
  "get_pair d account_id =
     (case map_of d account_id of None \<Rightarrow> (AccountingNone, AccountingNone) | Some p \<Rightarrow> p)"

definition ends_step :: "key \<Rightarrow> (pykey \<Rightarrow> acc_data) \<Rightarrow> (pykey \<Rightarrow> acc_data)" where
  "ends_step k dat =
     (case k of (domain, m, ex_rate_date) \<Rightarrow>
        (let initial_data = dat (K3 domain MODE_INITIAL ex_rate_date);
             variation_data = dat (K3 domain MODE_VARIATION ex_rate_date);
             account_ids = set_update (set_update [] (map fst initial_data))
                             (map fst variation_data)
         in fold (\<lambda>account_id dt.
                    dt(K3 domain m ex_rate_date :=
                         AList.update account_id
                           (an_add (fst (get_pair initial_data account_id))
                                   (fst (get_pair variation_data account_id)),
                            an_add (snd (get_pair initial_data account_id))
                                   (snd (get_pair variation_data account_id)))
                           (dt (K3 domain m ex_rate_date))))
              account_ids dat))"

definition initial_rates ::
  "env \<Rightarrow> aep \<Rightarrow> date \<Rightarrow> date \<Rightarrow> error + (nat \<times> rat \<times> nat) list option" where
  "initial_rates e a date_from date_to =
     (case exchange_rate_date a of
        None \<Rightarrow> rates_at e a date_from date_to RD_n
      | Some RD_d \<Rightarrow> Inr None
      | Some rd \<Rightarrow> rates_at e a date_from date_to rd)"

text \<open>\<^verbatim>\<open>do_queries\<close>; the result is the processor with its new \<^verbatim>\<open>_data\<close> and the list of
  the queries sent.\<close>

definition do_queries ::
  "env \<Rightarrow> aep \<Rightarrow> date \<Rightarrow> date \<Rightarrow> string \<Rightarrow> domain option \<Rightarrow> string option \<Rightarrow>
     error + aep \<times> (key \<times> domain) list" where
  "do_queries e a date_from date_to target_move additional_move_line_filter aml_model =
     (case initial_rates e a date_from date_to of
        Inl err \<Rightarrow> Inl err
      | Inr company_rates \<Rightarrow>
          (case fold_err
                  (key_step e a date_from date_to target_move additional_move_line_filter
                     aml_model)
                  (map fst (map_account_ids a))
                  \<lparr>dq_company_rates = company_rates, dq_data = (\<lambda>k. []),
                   dq_domain_by_mode = [], dq_ends = [], dq_log = []\<rparr> of
             Inl err \<Rightarrow> Inl err
           | Inr st \<Rightarrow>
               Inr (a\<lparr>data := Some (fold ends_step (dq_ends st) (dq_data st))\<rparr>,
                    dq_log st)))"

subsection \<open>Substitution\<close>

definition repr_amount :: "env \<Rightarrow> amount \<Rightarrow> string" where
  "repr_amount e v = (case v of AccountingNone \<Rightarrow> ''AccountingNone'' | Num x \<Rightarrow> float_repr e x)"

definition field_value :: "string \<Rightarrow> amount \<times> amount \<Rightarrow> amount \<Rightarrow> amount" where
  "field_value field p v =
     (if field = ''bal'' then an_add v (an_sub (fst p) (snd p))
      else if field = ''deb'' then an_add v (fst p)
      else if field = ''crd'' then an_add v (snd p)
      else v)"

definition zero_is_none :: "aep \<Rightarrow> mode \<Rightarrow> amount \<Rightarrow> amount" where
  "zero_is_none a m v =
     (case v of
        AccountingNone \<Rightarrow> AccountingNone
      | Num x \<Rightarrow>
          if (m = MODE_INITIAL \<or> m = MODE_UNALLOCATED) \<and> float_is_zero x (of_nat (dp a))
          then AccountingNone else Num x)"

text \<open>The function \<^verbatim>\<open>f\<close> that \<^verbatim>\<open>replace_expr\<close> applies to each match.\<close>

definition replace_match :: "env \<Rightarrow> aep \<Rightarrow> match_obj \<Rightarrow> error + string" where
  "replace_match e a mo =
     (case parse_match_object e mo of
        Inl err \<Rightarrow> Inl err
      | Inr (field, m, account_codes, domain, ex_rate_date) \<Rightarrow>
          (case data a of
             None \<Rightarrow> Inl AttributeError
           | Some dat \<Rightarrow>
               (let account_ids_data = dat (K3 domain m ex_rate_date);
                    v = fold (\<lambda>account_code.
                                fold (\<lambda>account_id.
                                        field_value field (get_pair account_ids_data account_id))
                                  (dd_get (account_ids_by_code a) account_code))
                          account_codes AccountingNone
                in Inr (''('' @ repr_amount e (zero_is_none a m v) @ '')''))))"

text \<open>\<^verbatim>\<open>replace_expr\<close>: \<^verbatim>\<open>self._ACC_RE.sub(f, expr)\<close>.\<close>

definition sub_piece :: "env \<Rightarrow> aep \<Rightarrow> piece \<Rightarrow> string \<Rightarrow> error + string" where
  "sub_piece e a p out =
     (case p of
        Lit c \<Rightarrow> Inr (out @ [c])
      | Match mo \<Rightarrow>
          (case replace_match e a mo of Inl err \<Rightarrow> Inl err | Inr t \<Rightarrow> Inr (out @ t)))"

definition replace_expr :: "env \<Rightarrow> aep \<Rightarrow> string \<Rightarrow> error + string" where
  "replace_expr e a expr = fold_err (sub_piece e a) (finditer expr) []"

subsection \<open>The convenience methods\<close>

definition mode_char :: "mode \<Rightarrow> char" where
  "mode_char m =
     (case m of MODE_VARIATION \<Rightarrow> CHR ''p'' | MODE_INITIAL \<Rightarrow> CHR ''i''
              | MODE_END \<Rightarrow> CHR ''e'' | MODE_UNALLOCATED \<Rightarrow> CHR ''u'')"

text \<open>\<^verbatim>\<open>_get_balances\<close>; its last line reads \<^verbatim>\<open>aep._data[((), mode)]\<close>.\<close>

definition get_balances ::
  "env \<Rightarrow> mode \<Rightarrow> company list \<Rightarrow> date \<Rightarrow> date \<Rightarrow> string \<Rightarrow> error + acc_data" where
  "get_balances e m cs date_from date_to target_move =
     (let expr = ''deb'' @ [mode_char m] @ ''[], crd'' @ [mode_char m] @ ''[]'' in
      case init e cs None (Some RD_n) of
        Inl err \<Rightarrow> Inl err
      | Inr a0 \<Rightarrow>
          (case parse_expr e (a0\<lparr>smart_end := False\<rparr>) expr of
             Inl err \<Rightarrow> Inl err
           | Inr a1 \<Rightarrow>
               (case done_parsing e a1 of
                  Inl err \<Rightarrow> Inl err
                | Inr a2 \<Rightarrow>
                    (case do_queries e a2 date_from date_to target_move None None of
                       Inl err \<Rightarrow> Inl err
                     | Inr (a3, queries) \<Rightarrow>
                         (case data a3 of
                            None \<Rightarrow> Inl AttributeError
                          | Some dat \<Rightarrow> Inr (dat (K2 [] m)))))))"

definition get_balances_initial :: "env \<Rightarrow> company list \<Rightarrow> date \<Rightarrow> string \<Rightarrow> error + acc_data" where
  "get_balances_initial e cs d target_move = get_balances e MODE_INITIAL cs d d target_move"

definition get_balances_end :: "env \<Rightarrow> company list \<Rightarrow> date \<Rightarrow> string \<Rightarrow> error + acc_data" where
  "get_balances_end e cs d target_move = get_balances e MODE_END cs d d target_move"

definition get_balances_variation ::
  "env \<Rightarrow> company list \<Rightarrow> date \<Rightarrow> date \<Rightarrow> string \<Rightarrow> error + acc_data" where
  "get_balances_variation e cs date_from date_to target_move =
     get_balances e MODE_VARIATION cs date_from date_to target_move"

text \<open>\<^verbatim>\<open>tuple(map(sum, izip(*bals.values())))\<close>: no column when there is no value, else
  the sum of the debits and the sum of the credits.\<close>

definition sum_columns :: "(amount \<times> amount) list \<Rightarrow> amount list" where
  "sum_columns vals =
     (if vals = [] then []
      else [fold (\<lambda>x s. an_add s x) (map fst vals) (Num 0),
            fold (\<lambda>x s. an_add s x) (map snd vals) (Num 0)])"

definition get_unallocated_pl :: "env \<Rightarrow> company list \<Rightarrow> date \<Rightarrow> string \<Rightarrow> error + amount list" where
  "get_unallocated_pl e cs d target_move =
     (case get_balances e MODE_UNALLOCATED cs d d target_move of
        Inl err \<Rightarrow> Inl err
      | Inr bals \<Rightarrow> Inr (sum_columns (map snd bals)))"

subsection \<open>A concrete environment\<close>

text \<open>An environment with no accounts and an empty ledger, in which \<^verbatim>\<open>safe_eval\<close>
  knows the empty domain only.\<close>

definition env0 :: env where
  "env0 = \<lparr> accounts = [], fiscalyear_date_from = (\<lambda>d. d), currency_rate = (\<lambda>c d. 1),
            currency_decimal_places = (\<lambda>c. 2), read_group = (\<lambda>m d. []),
            sql_fetchall = (\<lambda>m d. []),
            safe_eval = (\<lambda>s. if s = ''[]'' then Some [] else None),
            float_repr = (\<lambda>x. ''0.0'') \<rparr>"

text \<open>A company with three accounts. The ledger has, for account \<open>7\<close>, a debit of 100
  before the period and a debit of 50 and a credit of 20 in the period, and for account
  \<open>9\<close> a debit and a credit of 40 before the period; a query gets the rows of the accounts
  its domain names.\<close>

definition names_account :: "domain \<Rightarrow> nat \<Rightarrow> bool" where
  "names_account d i =
     list_all (\<lambda>t. case t of Leaf f opr (VIds ids) \<Rightarrow> i \<in> set ids | _ \<Rightarrow> True) d"

definition before_period :: "domain \<Rightarrow> bool" where
  "before_period d = list_ex (\<lambda>t. case t of Leaf f opr v \<Rightarrow> opr = ''<'' | _ \<Rightarrow> False) d"

definition env1 :: env where
  "env1 = \<lparr> accounts = [\<lparr>acc_id = 7, acc_code = ''70'', acc_company_id = 1\<rparr>,
                        \<lparr>acc_id = 8, acc_code = ''701'', acc_company_id = 1\<rparr>,
                        \<lparr>acc_id = 9, acc_code = ''60'', acc_company_id = 1\<rparr>],
            fiscalyear_date_from = (\<lambda>d. 100),
            currency_rate = (\<lambda>c d. 1),
            currency_decimal_places = (\<lambda>c. 2),
            read_group = (\<lambda>m d. filter (\<lambda>r. names_account d (rg_account_id r))
              (if before_period d
               then [\<lparr>rg_debit = Some 100, rg_credit = Some 0,
                      rg_account_id = 7, rg_company_id = 1\<rparr>,
                     \<lparr>rg_debit = Some 40, rg_credit = Some 40,
                      rg_account_id = 9, rg_company_id = 1\<rparr>]
               else [\<lparr>rg_debit = Some 50, rg_credit = Some 20,
                      rg_account_id = 7, rg_company_id = 1\<rparr>])),
            sql_fetchall = (\<lambda>m d. []),
            safe_eval = (\<lambda>s. if s = ''[]'' then Some [] else None),
            float_repr = (\<lambda>x. if x = 30 then ''30.0'' else if x = 100 then ''100.0''
                               else if x = 130 then ''130.0'' else ''0.0'') \<rparr>"

definition companies1 :: "company list" where
  "companies1 = [\<lparr>company_id = 1, currency_id = 1\<rparr>]"

subsection \<open>The protocol of use\<close>

text \<open>As the docstring of the class prescribes: \<^verbatim>\<open>parse_expr\<close> for each expression,
  then \<^verbatim>\<open>done_parsing\<close>, then \<^verbatim>\<open>do_queries\<close> for a period.\<close>

definition parse_exprs :: "env \<Rightarrow> aep \<Rightarrow> string list \<Rightarrow> error + aep" where
  "parse_exprs e a exprs = fold_err (\<lambda>expr a1. parse_expr e a1 expr) exprs a"

definition prepare ::
  "env \<Rightarrow> company list \<Rightarrow> nat option \<Rightarrow> rate_date option \<Rightarrow> string list \<Rightarrow>
     date \<Rightarrow> date \<Rightarrow> string \<Rightarrow> error + aep" where
  "prepare e cs cur erd exprs date_from date_to target_move =
     (case init e cs cur erd of
        Inl err \<Rightarrow> Inl err
      | Inr a0 \<Rightarrow>
          (case parse_exprs e a0 exprs of
             Inl err \<Rightarrow> Inl err
           | Inr a1 \<Rightarrow>
               (case done_parsing e a1 of
                  Inl err \<Rightarrow> Inl err
                | Inr a2 \<Rightarrow>
                    (case do_queries e a2 date_from date_to target_move None None of
                       Inl err \<Rightarrow> Inl err
                     | Inr (a3, queries) \<Rightarrow> Inr a3))))"

subsection \<open>What an expression registers\<close>

text \<open>For the statements about \<^verbatim>\<open>parse_expr\<close>: the pairs of a key and account codes that
  the matches of an expression register, in order (\<open>expr_regs\<close>); that every match of an
  expression parses, that is \<^verbatim>\<open>safe_eval\<close> accepts its domain (\<open>parses_ok\<close>); the set of
  codes pending under a key (\<open>codes_at\<close>); one registration (\<open>reg\<close>); and two states of
  a processor for the company of \<open>env1\<close>, after parsing \<^verbatim>\<open>bal[70]\<close> and after
  \<^verbatim>\<open>done_parsing\<close>.\<close>

definition is_ids :: "acc_val \<Rightarrow> bool" where
  "is_ids v = (case v of Ids ids \<Rightarrow> True | Codes cs \<Rightarrow> False)"

definition piece_regs :: "env \<Rightarrow> bool \<Rightarrow> piece \<Rightarrow> (key \<times> string option list) list" where
  "piece_regs e smart p =
     (case p of
        Lit c \<Rightarrow> []
      | Match mo \<Rightarrow>
          (case parse_match_object e mo of
             Inl err \<Rightarrow> []
           | Inr (field, m, account_codes, domain, ex_rate_date) \<Rightarrow>
               map (\<lambda>m1. ((domain, m1, ex_rate_date), account_codes)) (smart_modes smart m)))"

definition expr_regs :: "env \<Rightarrow> bool \<Rightarrow> string \<Rightarrow> (key \<times> string option list) list" where
  "expr_regs e smart expr = concat (map (piece_regs e smart) (finditer expr))"

definition piece_ok :: "env \<Rightarrow> piece \<Rightarrow> bool" where
  "piece_ok e p =
     (case p of
        Lit c \<Rightarrow> True
      | Match mo \<Rightarrow> (case parse_match_object e mo of Inl err \<Rightarrow> False | Inr x \<Rightarrow> True))"

definition parses_ok :: "env \<Rightarrow> string \<Rightarrow> bool" where
  "parses_ok e expr = list_all (piece_ok e) (finditer expr)"

definition codes_at :: "(key \<times> acc_val) list \<Rightarrow> key \<Rightarrow> string option set" where
  "codes_at m k = (case map_of m k of Some (Codes cs) \<Rightarrow> set cs | _ \<Rightarrow> {})"

definition reg :: "key \<times> string option list \<Rightarrow> (key \<times> acc_val) list \<Rightarrow> error + (key \<times> acc_val) list" where
  "reg kc = map_update_codes (fst kc) (snd kc)"

definition planned1 :: aep where
  "planned1 = (new_aep env1 companies1 None (Some RD_n))
     \<lparr>map_account_ids := [(([], MODE_VARIATION, None), Codes [Some ''70''])]\<rparr>"

definition finalized1 :: aep where
  "finalized1 = planned1
     \<lparr>map_account_ids := [(([], MODE_VARIATION, None), Ids [7])],
      account_ids_by_code := [(Some ''70'', [7])]\<rparr>"

subsection \<open>Selectors without accounts\<close>



subsection \<open>Notions for the statements about the queries\<close>

text \<open>The key of \<^verbatim>\<open>_data\<close> for a key of the map (\<open>k3\<close>); the keys whose query is
  postponed (\<open>deferred\<close>); the tables that \<^verbatim>\<open>get_company_rates\<close> can return
  (\<open>rates_ok\<close>); the sum of the initial balance and of the variation of an account
  (\<open>end_pair\<close>) and the accounts that have one of the two (\<open>end_accounts\<close>), with the
  two invariants of the second loop; the state at the start of the first loop
  (\<open>dq_init\<close>); and the processor of \<open>env1\<close> after parsing \<^verbatim>\<open>bale[70]\<close> and
  \<^verbatim>\<open>done_parsing\<close>.\<close>

definition k3 :: "key \<Rightarrow> pykey" where
  "k3 k = (case k of (d, m, rd) \<Rightarrow> K3 d m rd)"

definition deferred :: "aep \<Rightarrow> key \<Rightarrow> bool" where
  "deferred a k = (fst (snd k) = MODE_END \<and> smart_end a)"

definition rates_ok :: "env \<Rightarrow> aep \<Rightarrow> (nat \<times> rat \<times> nat) list option \<Rightarrow> bool" where
  "rates_ok e a r = (case r of None \<Rightarrow> True | Some tbl \<Rightarrow> \<exists>d. get_company_rates e a d = Inr tbl)"

definition end_pair :: "(pykey \<Rightarrow> acc_data) \<Rightarrow> domain \<Rightarrow> rate_date option \<Rightarrow> nat \<Rightarrow> amount \<times> amount" where
  "end_pair dat d rd account_id =
     (an_add (fst (get_pair (dat (K3 d MODE_INITIAL rd)) account_id))
             (fst (get_pair (dat (K3 d MODE_VARIATION rd)) account_id)),
      an_add (snd (get_pair (dat (K3 d MODE_INITIAL rd)) account_id))
             (snd (get_pair (dat (K3 d MODE_VARIATION rd)) account_id)))"

definition end_accounts :: "(pykey \<Rightarrow> acc_data) \<Rightarrow> domain \<Rightarrow> rate_date option \<Rightarrow> nat set" where
  "end_accounts dat d rd =
     fst ` set (dat (K3 d MODE_INITIAL rd)) \<union> fst ` set (dat (K3 d MODE_VARIATION rd))"

definition end_ok :: "(pykey \<Rightarrow> acc_data) \<Rightarrow> (pykey \<Rightarrow> acc_data) \<Rightarrow> domain \<Rightarrow> rate_date option \<Rightarrow> bool" where
  "end_ok ref dat d rd =
     (\<forall>x. map_of (dat (K3 d MODE_END rd)) x =
          (if x \<in> end_accounts ref d rd then Some (end_pair ref d rd x) else None))"

definition agree :: "(pykey \<Rightarrow> acc_data) \<Rightarrow> (pykey \<Rightarrow> acc_data) \<Rightarrow> bool" where
  "agree ref dat = (\<forall>d m rd. m \<noteq> MODE_END \<longrightarrow> dat (K3 d m rd) = ref (K3 d m rd))"

definition dq_init :: "(nat \<times> rat \<times> nat) list option \<Rightarrow> dq_state" where
  "dq_init r = \<lparr>dq_company_rates = r, dq_data = (\<lambda>k. []),
                dq_domain_by_mode = [], dq_ends = [], dq_log = []\<rparr>"

definition finalized_bale :: aep where
  "finalized_bale = (new_aep env1 companies1 (Some 1) (Some RD_n))
     \<lparr>map_account_ids := [(([], MODE_INITIAL, None), Ids [7]),
                          (([], MODE_VARIATION, None), Ids [7]),
                          (([], MODE_END, None), Ids [7])],
      account_ids_by_code := [(Some ''70'', [7])]\<rparr>"





section \<open>Properties\<close>

subsection \<open>Construction\<close>

text \<open>
  C5. Constructing the processor with no target currency over companies whose currencies
  differ raises \<open>UserError\<close>, at construction and so before any query; with a target
  currency, or when all companies have the same currency, construction succeeds for any
  companies.
\<close>

lemma length_remdups_gt_one:
  "(1 < length (remdups xs)) = (\<exists>a \<in> set xs. \<exists>b \<in> set xs. a \<noteq> b)"
proof (cases "remdups xs")
  case Nil
  then show ?thesis by simp
next
  case (Cons y ys)
  note c1 = Cons
  show ?thesis
  proof (cases ys)
    case Nil
    with c1 have "set xs = {y}" by (metis set_remdups list.simps(15) empty_set)
    with c1 Nil show ?thesis by simp
  next
    case (Cons z zs)
    with c1 have r: "remdups xs = y # z # zs" by simp
    have "distinct (remdups xs)" by simp
    with r have "y \<noteq> z" by simp
    moreover from r have "y \<in> set xs" "z \<in> set xs"
      by (metis set_remdups list.set_intros(1), metis set_remdups list.set_intros(1,2))
    ultimately show ?thesis using r by auto
  qed
qed

theorem init_currency_check:
  "((init e cs None erd = Inl UserError) =
      (\<exists>a \<in> set cs. \<exists>b \<in> set cs. currency_id a \<noteq> currency_id b)) \<and>
   init e cs (Some c) erd = Inr (new_aep e cs (Some c) erd) \<and>
   ((\<forall>a \<in> set cs. \<forall>b \<in> set cs. currency_id a = currency_id b) \<longrightarrow>
      (\<exists>p. init e cs cur erd = Inr p))"
proof -
  let ?D = "\<exists>a \<in> set cs. \<exists>b \<in> set cs. currency_id a \<noteq> currency_id b"
  have "(1 < length (remdups (map currency_id cs))) =
      (\<exists>x \<in> set (map currency_id cs). \<exists>y \<in> set (map currency_id cs). x \<noteq> y)"
    by (rule length_remdups_gt_one)
  also have "\<dots> = ?D" by auto
  finally have gt: "(1 < length (mapped_currency_id cs)) = ?D"
    by (simp only: mapped_currency_id_def)
  have a: "(init e cs None erd = Inl UserError) = ?D"
  proof (cases "1 < length (mapped_currency_id cs)")
    case True
    then have "init e cs None erd = Inl UserError" by (simp add: init_def)
    moreover from True gt have ?D by (rule iffD1 [rotated])
    ultimately show ?thesis by blast
  next
    case False
    then have "init e cs None erd \<noteq> Inl UserError" by (simp add: init_def)
    moreover from False gt have "\<not> ?D" by blast
    ultimately show ?thesis by blast
  qed
  have b: "init e cs (Some c) erd = Inr (new_aep e cs (Some c) erd)"
    by (simp add: init_def)
  have c: "(\<forall>a \<in> set cs. \<forall>b \<in> set cs. currency_id a = currency_id b) \<longrightarrow>
      (\<exists>p. init e cs cur erd = Inr p)"
  proof
    assume "\<forall>a \<in> set cs. \<forall>b \<in> set cs. currency_id a = currency_id b"
    then have "\<not> ?D" by blast
    with gt have "\<not> 1 < length (mapped_currency_id cs)" by blast
    then show "\<exists>p. init e cs cur erd = Inr p"
      by (cases cur) (simp_all add: init_def)
  qed
  from a b c show ?thesis by (intro conjI)
qed

theorem init_currency_check_witness:
  "init env0 [\<lparr> company_id = 1, currency_id = 1 \<rparr>, \<lparr> company_id = 2, currency_id = 2 \<rparr>]
        None (Some RD_n) = Inl UserError \<and>
   (\<exists>p. init env0 [\<lparr> company_id = 1, currency_id = 1 \<rparr>, \<lparr> company_id = 2, currency_id = 1 \<rparr>]
        None (Some RD_n) = Inr p)"
proof -
  let ?a = "\<lparr> company_id = 1, currency_id = 1 \<rparr>"
  let ?b = "\<lparr> company_id = 2, currency_id = 2 \<rparr>"
  let ?c = "\<lparr> company_id = 2, currency_id = 1 \<rparr>"
  have m: "\<exists>a \<in> set [?a, ?b]. \<exists>b \<in> set [?a, ?b]. currency_id a \<noteq> currency_id b"
    by (rule bexI [where x = ?a], rule bexI [where x = ?b]) simp_all
  have s: "\<forall>a \<in> set [?a, ?c]. \<forall>b \<in> set [?a, ?c]. currency_id a = currency_id b"
    by simp
  have "(init env0 [?a, ?b] None (Some RD_n) = Inl UserError) =
      (\<exists>a \<in> set [?a, ?b]. \<exists>b \<in> set [?a, ?b]. currency_id a \<noteq> currency_id b)"
    by (rule init_currency_check [of env0 "[?a, ?b]" "Some RD_n" 0 None, THEN conjunct1])
  with m have 1: "init env0 [?a, ?b] None (Some RD_n) = Inl UserError"
    by (rule iffD2 [rotated])
  have "(\<forall>a \<in> set [?a, ?c]. \<forall>b \<in> set [?a, ?c]. currency_id a = currency_id b) \<longrightarrow>
      (\<exists>p. init env0 [?a, ?c] None (Some RD_n) = Inr p)"
    by (rule init_currency_check [of env0 "[?a, ?c]" "Some RD_n" 0 None,
          THEN conjunct2, THEN conjunct2])
  with s have 2: "\<exists>p. init env0 [?a, ?c] None (Some RD_n) = Inr p"
    by (rule mp [rotated])
  from 1 2 show ?thesis by (rule conjI)
qed

subsection \<open>The date domains\<close>

lemma get_aml_domain_for_dates_Inr:
  "\<exists>d. get_aml_domain_for_dates e date_from date_to m target_move = Inr d"
  by (cases m) (simp_all add: get_aml_domain_for_dates_def normalize_domain_def Let_def op_arity_def)

text \<open>
  C4. For every window and mode \<^verbatim>\<open>get_aml_domain_for_dates\<close> returns a domain that a
  move line satisfies exactly when: for the variation, its date is in
  \<open>[date_from, date_to]\<close>; for the initial balance, its date is not before the start of
  the fiscal year of \<open>date_from\<close> or its account carries its balance forward, and its date
  is before \<open>date_from\<close>; for the ending balance, the same lower bound and its date is at
  most \<open>date_to\<close>; for the unallocated mode, its date is before the start of the fiscal year
  and its account does not carry its balance forward. The condition on the state of the move
  is in the domain exactly when \<open>target_move\<close> is \<^verbatim>\<open>'posted'\<close>.
\<close>

theorem get_aml_domain_for_dates_meaning:
  "\<exists>d. get_aml_domain_for_dates e date_from date_to m target_move = Inr d \<and>
     (domain_holds r d =
        ((case m of
            MODE_VARIATION \<Rightarrow> date_from \<le> aml_date r \<and> aml_date r \<le> date_to
          | MODE_INITIAL \<Rightarrow>
              (fiscalyear_date_from e date_from \<le> aml_date r \<or> aml_include_initial_balance r)
              \<and> aml_date r < date_from
          | MODE_END \<Rightarrow>
              (fiscalyear_date_from e date_from \<le> aml_date r \<or> aml_include_initial_balance r)
              \<and> aml_date r \<le> date_to
          | MODE_UNALLOCATED \<Rightarrow>
              aml_date r < fiscalyear_date_from e date_from \<and> \<not> aml_include_initial_balance r)
         \<and> (target_move = ''posted'' \<longrightarrow> aml_state r = ''posted''))) \<and>
     ((Leaf ''move_id.state'' ''='' (VStr ''posted'') \<in> set d) = (target_move = ''posted''))"
proof (cases "target_move = ''posted''")
  case True
  then show ?thesis
    by (cases m)
      (auto simp add: get_aml_domain_for_dates_def normalize_domain_def Let_def op_arity_def
        domain_holds_def)
next
  case False
  then show ?thesis
    by (cases m)
      (auto simp add: get_aml_domain_for_dates_def normalize_domain_def Let_def op_arity_def
        domain_holds_def)
qed

theorem get_aml_domain_for_dates_meaning_witness:
  "\<exists>d. get_aml_domain_for_dates env0 10 20 MODE_INITIAL ''posted'' = Inr d \<and>
     domain_holds \<lparr> aml_date = 5, aml_include_initial_balance = True,
                     aml_state = ''posted'', aml_account_id = 1 \<rparr> d"
  using get_aml_domain_for_dates_meaning [of env0 10 20 MODE_INITIAL "''posted''"
    "\<lparr> aml_date = 5, aml_include_initial_balance = True,
       aml_state = ''posted'', aml_account_id = 1 \<rparr>"]
  by auto

subsection \<open>Substitution leaves text without accounting variables alone\<close>

lemma finditer_from_no_match:
  "\<forall>p \<in> set (finditer_from 0 w s). (case p of Match m \<Rightarrow> False | Lit c \<Rightarrow> True) \<Longrightarrow>
   finditer_from 0 w s = map Lit s"
proof (induction s arbitrary: w)
  case Nil
  then show ?case by simp
next
  case (Cons c cs)
  show ?case
  proof (cases "if w then None else acc_re_match (c # cs)")
    case None
    with Cons.prems have "\<forall>p \<in> set (finditer_from 0 (is_word_char c) cs).
        (case p of Match m \<Rightarrow> False | Lit c \<Rightarrow> True)"
      by simp
    then have "finditer_from 0 (is_word_char c) cs = map Lit cs" by (rule Cons.IH)
    with None show ?thesis by simp
  next
    case (Some m)
    with Cons.prems show ?thesis by simp
  qed
qed

lemma fold_err_sub_piece_lits:
  "fold_err (sub_piece e a) (map Lit s) out = Inr (out @ s)"
  by (induction s arbitrary: out) (simp_all add: sub_piece_def)

lemma finditer_no_var:
  assumes "\<not> has_account_var expr"
  shows "finditer expr = map Lit expr"
proof -
  from assms have "\<forall>p \<in> set (finditer_from 0 False expr).
      (case p of Match m \<Rightarrow> False | Lit c \<Rightarrow> True)"
    by (auto simp add: has_account_var_def finditer_def split: piece.splits)
  then show ?thesis
    unfolding finditer_def by (rule finditer_from_no_match)
qed

text \<open>
  C9 (as amended). \<^verbatim>\<open>replace_expr\<close> returns unchanged every string in which the regular
  expression has no match, whatever the state of the processor; so a second pass changes
  nothing whenever the output of the first pass has no match.
\<close>

theorem replace_expr_no_var_identity:
  "(\<not> has_account_var expr \<longrightarrow> replace_expr e a expr = Inr expr) \<and>
   (replace_expr e a expr = Inr r \<and> \<not> has_account_var r \<longrightarrow> replace_expr e a r = Inr r)"
  by (simp add: replace_expr_def finditer_no_var fold_err_sub_piece_lits)

theorem replace_expr_no_var_identity_witness:
  "\<not> has_account_var ''2 * (30.0) + x'' \<and>
   replace_expr env1 (new_aep env1 companies1 None (Some RD_n)) ''2 * (30.0) + x''
     = Inr ''2 * (30.0) + x''"
proof -
  have n: "\<not> has_account_var ''2 * (30.0) + x''" by code_simp
  with replace_expr_no_var_identity
    [of "''2 * (30.0) + x''" env1 "new_aep env1 companies1 None (Some RD_n)" "[]"]
  show ?thesis by blast
qed

text \<open>
  The claim as stated fails: in \<^verbatim>\<open>bal[70]sdeb[60]\<close> the only match is \<^verbatim>\<open>bal[70]s\<close>,
  since no word boundary separates \<^verbatim>\<open>s\<close> from \<^verbatim>\<open>deb\<close>; once the match is replaced,
  \<^verbatim>\<open>deb[60]\<close> follows a parenthesis and a second pass replaces it.
\<close>

theorem replace_expr_twice_counterexample:
  "(case prepare env1 companies1 None (Some RD_n) [''bal[70]sdeb[60]''] 100 190 ''posted'' of
      Inl err \<Rightarrow> False
    | Inr a \<Rightarrow>
        replace_expr env1 a ''bal[70]sdeb[60]'' = Inr ''(30.0)deb[60]'' \<and>
        replace_expr env1 a ''(30.0)deb[60]'' = Inr ''(30.0)(AccountingNone)'')"
  by code_simp

subsection \<open>Parsing after \<^verbatim>\<open>done_parsing\<close>\<close>

lemma fold_err_Inr_append:
  "fold_err f (xs @ ys) s = (case fold_err f xs s of Inl e \<Rightarrow> Inl e | Inr s1 \<Rightarrow> fold_err f ys s1)"
  by (induction xs arbitrary: s) (simp_all split: sum.splits)

lemma load_account_codes_map [simp]:
  "map_account_ids (load_account_codes e a cs) = map_account_ids a"
  by (simp add: load_account_codes_def split: prod.splits)

lemma done_parsing_step_map_of:
  assumes "done_parsing_step e (k, v) a = Inr a1"
  shows "\<exists>ids. map_of (map_account_ids a1) = (map_of (map_account_ids a))(k \<mapsto> Ids ids)"
  using assms
  by (auto simp add: done_parsing_step_def Let_def update_conv' split: acc_val.splits prod.splits if_splits)

lemma done_parsing_ids_aux:
  assumes "fold_err (done_parsing_step e) kvs a = Inr a1"
    and "\<And>k v. map_of (map_account_ids a) k = Some v \<Longrightarrow> k \<in> fst ` set kvs \<or> is_ids v"
  shows "map_of (map_account_ids a1) k = Some v \<Longrightarrow> is_ids v"
  using assms
proof (induction kvs arbitrary: a)
  case Nil
  then show ?case by auto
next
  case (Cons kv kvs)
  obtain k0 v0 where kv: "kv = (k0, v0)" by (cases kv)
  from Cons.prems(2) kv obtain a2 where
    s: "done_parsing_step e (k0, v0) a = Inr a2" and r: "fold_err (done_parsing_step e) kvs a2 = Inr a1"
    by (auto split: sum.splits)
  from done_parsing_step_map_of [OF s] obtain ids where
    m: "map_of (map_account_ids a2) = (map_of (map_account_ids a))(k0 \<mapsto> Ids ids)" by blast
  have "\<And>k v. map_of (map_account_ids a2) k = Some v \<Longrightarrow> k \<in> fst ` set kvs \<or> is_ids v"
  proof -
    fix k v assume h: "map_of (map_account_ids a2) k = Some v"
    show "k \<in> fst ` set kvs \<or> is_ids v"
    proof (cases "k = k0")
      case True
      with h m show ?thesis by (auto simp add: is_ids_def)
    next
      case False
      with h m have "map_of (map_account_ids a) k = Some v" by simp
      from Cons.prems(3) [OF this] kv False show ?thesis by auto
    qed
  qed
  from Cons.IH [OF Cons.prems(1) r this] show ?case .
qed

lemma done_parsing_all_ids:
  assumes "done_parsing e a = Inr a1" and "map_of (map_account_ids a1) k = Some v"
  shows "is_ids v"
proof -
  from assms(1) have f: "fold_err (done_parsing_step e) (map_account_ids a) a = Inr a1"
    by (simp add: done_parsing_def)
  have g: "\<And>k v. map_of (map_account_ids a) k = Some v \<Longrightarrow>
      k \<in> fst ` set (map_account_ids a) \<or> is_ids v"
    by (force dest: map_of_SomeD)
  show ?thesis by (rule done_parsing_ids_aux [OF f g assms(2)])
qed

lemma set_set_update: "set (set_update s xs) = set s \<union> set xs"
  unfolding set_update_def by (induction xs arbitrary: s) auto

lemma distinct_set_update: "distinct s \<Longrightarrow> distinct (set_update s xs)"
  unfolding set_update_def by (induction xs arbitrary: s) auto

lemma fold_err_concat:
  "fold_err f (concat xss) s = fold_err (\<lambda>xs. fold_err f xs) xss s"
  by (induction xss arbitrary: s) (simp_all add: fold_err_Inr_append split: sum.splits)

lemma fold_err_map: "fold_err f (map g xs) s = fold_err (\<lambda>x. f (g x)) xs s"
  by (induction xs arbitrary: s) (simp_all split: sum.splits)

lemma parse_piece_regs:
  "piece_ok e p \<Longrightarrow> parse_piece e smart p m = fold_err reg (piece_regs e smart p) m"
  by (auto simp add: piece_ok_def parse_piece_def piece_regs_def fold_err_map reg_def
      split: piece.splits sum.splits)


lemma fold_parse_pieces:
  "list_all (piece_ok e) ps \<Longrightarrow>
   fold_err (parse_piece e smart) ps m = fold_err reg (concat (map (piece_regs e smart) ps)) m"
proof (induction ps arbitrary: m)
  case Nil
  then show ?case by simp
next
  case (Cons p ps)
  then show ?case
    by (simp add: parse_piece_regs fold_err_Inr_append split: sum.splits)
qed


lemma map_of_snoc:
  "map_of m k = None \<Longrightarrow> map_of (m @ [(k, v)]) = (map_of m)(k \<mapsto> v)"
  by (rule ext) (auto simp add: map_of_append map_add_def split: option.splits)

lemma reg_Inl:
  "(reg kc m = Inl err) = (err = AttributeError \<and> (\<exists>ids. map_of m (fst kc) = Some (Ids ids)))"
  by (auto simp add: reg_def map_update_codes_def split: option.splits acc_val.splits)

lemma reg_Inr:
  assumes "reg kc m = Inr m1"
  shows "map_of m1 = (map_of m)(fst kc \<mapsto> Codes (set_update
           (case map_of m (fst kc) of Some (Codes cs) \<Rightarrow> cs | _ \<Rightarrow> []) (snd kc)))"
    and "map fst m1 = (if fst kc \<in> set (map fst m) then map fst m else map fst m @ [fst kc])"
proof -
  show "map_of m1 = (map_of m)(fst kc \<mapsto> Codes (set_update
           (case map_of m (fst kc) of Some (Codes cs) \<Rightarrow> cs | _ \<Rightarrow> []) (snd kc)))"
  proof (cases "map_of m (fst kc)")
    case None
    with assms have "m1 = m @ [(fst kc, Codes (set_update [] (snd kc)))]"
      by (simp add: reg_def map_update_codes_def)
    with None show ?thesis by (simp only: map_of_snoc option.case)
  next
    case (Some v)
    with assms show ?thesis
      by (cases v) (auto simp add: reg_def map_update_codes_def update_conv')
  qed
  show "map fst m1 = (if fst kc \<in> set (map fst m) then map fst m else map fst m @ [fst kc])"
  proof (cases "map_of m (fst kc)")
    case None
    with assms have "m1 = m @ [(fst kc, Codes (set_update [] (snd kc)))]"
      by (simp add: reg_def map_update_codes_def)
    moreover from None have "fst kc \<notin> set (map fst m)"
      by (simp add: map_of_eq_None_iff)
    ultimately show ?thesis by simp
  next
    case (Some v)
    then have "(fst kc, v) \<in> set m" by (rule map_of_SomeD)
    then have i: "fst kc \<in> set (map fst m)" by force
    from Some assms obtain w where "m1 = AList.update (fst kc) w m"
      by (cases v) (auto simp add: reg_def map_update_codes_def)
    with i show ?thesis by (simp only: update_keys if_True)
  qed
qed

lemma fold_reg_Inl:
  "fold_err reg rs m = Inl err \<Longrightarrow>
   err = AttributeError \<and> (\<exists>kc \<in> set rs. \<exists>ids. map_of m (fst kc) = Some (Ids ids))"
proof (induction rs arbitrary: m)
  case Nil
  then show ?case by simp
next
  case (Cons kc rs)
  show ?case
  proof (cases "reg kc m")
    case (Inl err1)
    with Cons.prems have "err1 = err" by simp
    with Inl show ?thesis by (auto simp add: reg_Inl)
  next
    case (Inr m1)
    with Cons.prems have "fold_err reg rs m1 = Inl err" by simp
    from Cons.IH [OF this] obtain kc1 ids where
      e: "err = AttributeError" and k: "kc1 \<in> set rs" and i: "map_of m1 (fst kc1) = Some (Ids ids)"
      by blast
    from i reg_Inr(1) [OF Inr] have "map_of m (fst kc1) = Some (Ids ids)"
      by (cases "fst kc1 = fst kc") auto
    with e k show ?thesis by auto
  qed
qed

lemma fold_reg_ids_Inl:
  "\<exists>kc \<in> set rs. \<exists>ids. map_of m (fst kc) = Some (Ids ids) \<Longrightarrow>
   fold_err reg rs m = Inl AttributeError"
proof (induction rs arbitrary: m)
  case Nil
  then show ?case by simp
next
  case (Cons kc rs)
  show ?case
  proof (cases "reg kc m")
    case (Inl err1)
    then have "err1 = AttributeError" by (simp add: reg_Inl)
    with Inl show ?thesis by simp
  next
    case (Inr m1)
    then have n: "\<And>ids. map_of m (fst kc) \<noteq> Some (Ids ids)"
      by (auto simp add: reg_def map_update_codes_def split: option.splits acc_val.splits)
    with Cons.prems obtain kc1 ids where
      k: "kc1 \<in> set rs" and i: "map_of m (fst kc1) = Some (Ids ids)" by auto
    from i n have "fst kc1 \<noteq> fst kc" by auto
    with i reg_Inr(1) [OF Inr] have "map_of m1 (fst kc1) = Some (Ids ids)" by simp
    with k have "fold_err reg rs m1 = Inl AttributeError" by (intro Cons.IH) blast
    with Inr show ?thesis by simp
  qed
qed

lemma codes_at_upd:
  "map_of m1 = (map_of m)(k0 \<mapsto> Codes (set_update (case map_of m k0 of Some (Codes cs) \<Rightarrow> cs | _ \<Rightarrow> []) c))
   \<Longrightarrow> (\<And>ids. map_of m k0 \<noteq> Some (Ids ids))
   \<Longrightarrow> codes_at m1 k = (if k = k0 then codes_at m k \<union> set c else codes_at m k)"
  by (auto simp add: codes_at_def set_set_update split: option.splits acc_val.splits)

lemma fold_reg_Inr:
  assumes "fold_err reg rs m = Inr m1"
  shows "codes_at m1 k = codes_at m k \<union> \<Union> {set c |c. (k, c) \<in> set rs}"
    and "k \<notin> fst ` set rs \<Longrightarrow> map_of m1 k = map_of m k"
    and "k \<in> fst ` set rs \<Longrightarrow> \<exists>cs. map_of m1 k = Some (Codes cs)"
    and "set (map fst m1) = set (map fst m) \<union> fst ` set rs"
    and "distinct (map fst m) \<Longrightarrow> distinct (map fst m1)"
  using assms
proof (induction rs arbitrary: m)
  case Nil
  { case 1 then show ?case by simp }
  { case 2 then show ?case by simp }
  { case 3 then show ?case by simp }
  { case 4 then show ?case by simp }
  { case 5 then show ?case by simp }
next
  case (Cons kc rs)
  { case 1
    then obtain m2 where r: "reg kc m = Inr m2" and f: "fold_err reg rs m2 = Inr m1"
      by (auto split: sum.splits)
    from r have n: "\<And>ids. map_of m (fst kc) \<noteq> Some (Ids ids)"
      by (auto simp add: reg_def map_update_codes_def split: option.splits acc_val.splits)
    have "codes_at m2 k = (if k = fst kc then codes_at m k \<union> set (snd kc) else codes_at m k)"
      by (rule codes_at_upd [OF reg_Inr(1) [OF r] n])
    moreover have "codes_at m1 k = codes_at m2 k \<union> \<Union> {set c |c. (k, c) \<in> set rs}"
      by (rule Cons.IH(1) [OF f])
    ultimately show ?case by (cases kc) auto }
  { case 2
    then obtain m2 where r: "reg kc m = Inr m2" and f: "fold_err reg rs m2 = Inr m1"
      by (auto split: sum.splits)
    from 2 have "k \<notin> fst ` set rs" "k \<noteq> fst kc" by auto
    with Cons.IH(2) [OF _ f] reg_Inr(1) [OF r] show ?case by simp }
  { case 3
    then obtain m2 where r: "reg kc m = Inr m2" and f: "fold_err reg rs m2 = Inr m1"
      by (auto split: sum.splits)
    show ?case
    proof (cases "k \<in> fst ` set rs")
      case True
      then show ?thesis by (rule Cons.IH(3) [OF _ f])
    next
      case False
      with 3 have "k = fst kc" by auto
      with Cons.IH(2) [OF False f] reg_Inr(1) [OF r] show ?thesis by simp
    qed }
  { case 4
    then obtain m2 where r: "reg kc m = Inr m2" and f: "fold_err reg rs m2 = Inr m1"
      by (auto split: sum.splits)
    have "set (map fst m2) = insert (fst kc) (set (map fst m))"
      using reg_Inr(2) [OF r]
      by (cases "fst kc \<in> set (map fst m)") (simp_all add: insert_absorb)
    with Cons.IH(4) [OF f] show ?case by simp }
  { case 5
    then obtain m2 where r: "reg kc m = Inr m2" and f: "fold_err reg rs m2 = Inr m1"
      by (auto split: sum.splits)
    from 5 reg_Inr(2) [OF r] have "distinct (map fst m2)" by (auto split: if_splits)
    then show ?case by (rule Cons.IH(5) [OF _ f]) }
qed

lemma aep_eqI:
  fixes a b :: aep
  assumes "companies a = companies b \<and> currency a = currency b \<and>
    exchange_rate_date a = exchange_rate_date b \<and> dp a = dp b \<and>
    map_account_ids a = map_account_ids b \<and> account_ids_by_code a = account_ids_by_code b \<and>
    smart_end a = smart_end b \<and> (case data a of None \<Rightarrow> True | Some f \<Rightarrow> False) \<and>
    (case data b of None \<Rightarrow> True | Some f \<Rightarrow> False)"
  shows "a = b"
  using assms by (intro aep.equality) (auto split: option.splits)

lemma sum_aep_eqI:
  fixes b :: aep
  assumes "case x of Inl err \<Rightarrow> False | Inr a \<Rightarrow>
    companies a = companies b \<and> currency a = currency b \<and>
    exchange_rate_date a = exchange_rate_date b \<and> dp a = dp b \<and>
    map_account_ids a = map_account_ids b \<and> account_ids_by_code a = account_ids_by_code b \<and>
    smart_end a = smart_end b \<and> (case data a of None \<Rightarrow> True | Some f \<Rightarrow> False) \<and>
    (case data b of None \<Rightarrow> True | Some f \<Rightarrow> False)"
  shows "x = Inr b"
proof (cases x)
  case (Inl err)
  with assms show ?thesis by simp
next
  case (Inr a)
  with assms have "a = b" by (intro aep_eqI) simp
  with Inr show ?thesis by simp
qed

lemma planned1: "parse_expr env1 (new_aep env1 companies1 None (Some RD_n)) ''bal[70]'' = Inr planned1"
  by (rule sum_aep_eqI) code_simp

lemma finalized1: "done_parsing env1 planned1 = Inr finalized1"
  by (rule sum_aep_eqI) code_simp

lemma parse_expr_regs:
  assumes "parses_ok e expr"
  shows "parse_expr e a expr =
     (case fold_err reg (expr_regs e (smart_end a) expr) (map_account_ids a) of
        Inl err \<Rightarrow> Inl err | Inr m \<Rightarrow> Inr (a\<lparr>map_account_ids := m\<rparr>))"
  using assms by (simp add: parse_expr_def parses_ok_def expr_regs_def fold_parse_pieces)

text \<open>
  C8 (as amended). After \<^verbatim>\<open>done_parsing\<close> every value of the map is a list of ids.
  A later \<^verbatim>\<open>parse_expr\<close> whose matches parse fails with \<open>AttributeError\<close> as soon as
  one of the keys it registers is already in the map (a list has no \<^verbatim>\<open>update\<close>);
  when all its keys are new it succeeds: each new key is added with the set of its
  account codes and the other entries stay as they were.
\<close>
theorem parse_expr_after_done_parsing:
  assumes "done_parsing e a0 = Inr a" and "parses_ok e expr"
  shows "((\<exists>k \<in> fst ` set (expr_regs e (smart_end a) expr). k \<in> fst ` set (map_account_ids a))
            \<longrightarrow> parse_expr e a expr = Inl AttributeError) \<and>
         ((\<forall>k \<in> fst ` set (expr_regs e (smart_end a) expr). k \<notin> fst ` set (map_account_ids a))
            \<longrightarrow> (\<exists>a1. parse_expr e a expr = Inr a1 \<and>
                  (\<forall>k \<in> fst ` set (expr_regs e (smart_end a) expr).
                      \<exists>cs. map_of (map_account_ids a1) k = Some (Codes cs) \<and>
                           set cs = \<Union> {set c |c. (k, c) \<in> set (expr_regs e (smart_end a) expr)}) \<and>
                  (\<forall>k. k \<notin> fst ` set (expr_regs e (smart_end a) expr) \<longrightarrow>
                      map_of (map_account_ids a1) k = map_of (map_account_ids a) k)))"
proof (intro conjI impI)
  let ?rs = "expr_regs e (smart_end a) expr"
  let ?m = "map_account_ids a"
  assume "\<exists>k \<in> fst ` set ?rs. k \<in> fst ` set ?m"
  then obtain kc where kc: "kc \<in> set ?rs" and "fst kc \<in> fst ` set ?m" by blast
  then have "map_of ?m (fst kc) \<noteq> None" by (simp add: map_of_eq_None_iff)
  then obtain v where v: "map_of ?m (fst kc) = Some v" by blast
  from done_parsing_all_ids [OF assms(1) v] obtain ids where "v = Ids ids"
    by (cases v) (auto simp add: is_ids_def)
  with kc v have "\<exists>kc \<in> set ?rs. \<exists>ids. map_of ?m (fst kc) = Some (Ids ids)" by blast
  then have "fold_err reg ?rs ?m = Inl AttributeError" by (rule fold_reg_ids_Inl)
  then show "parse_expr e a expr = Inl AttributeError"
    by (simp add: parse_expr_regs [OF assms(2)])
next
  let ?rs = "expr_regs e (smart_end a) expr"
  let ?m = "map_account_ids a"
  assume new: "\<forall>k \<in> fst ` set ?rs. k \<notin> fst ` set ?m"
  have "\<exists>m1. fold_err reg ?rs ?m = Inr m1"
  proof (cases "fold_err reg ?rs ?m")
    case (Inl err)
    from fold_reg_Inl [OF this] obtain kc ids where
      "kc \<in> set ?rs" "map_of ?m (fst kc) = Some (Ids ids)" by blast
    with new show ?thesis by (force dest: map_of_SomeD)
  next
    case (Inr m1)
    then show ?thesis by blast
  qed
  then obtain m1 where f: "fold_err reg ?rs ?m = Inr m1" by blast
  have 1: "parse_expr e a expr = Inr (a\<lparr>map_account_ids := m1\<rparr>)"
    using f by (simp add: parse_expr_regs [OF assms(2)])
  have 2: "\<forall>k \<in> fst ` set ?rs. \<exists>cs. map_of m1 k = Some (Codes cs) \<and>
      set cs = \<Union> {set c |c. (k, c) \<in> set ?rs}"
  proof
    fix k assume k: "k \<in> fst ` set ?rs"
    from fold_reg_Inr(3) [OF f k] obtain cs where cs: "map_of m1 k = Some (Codes cs)" by blast
    from k new have "k \<notin> fst ` set ?m" by blast
    then have "map_of ?m k = None" by (simp add: map_of_eq_None_iff)
    then have "codes_at ?m k = {}" by (simp add: codes_at_def)
    with fold_reg_Inr(1) [OF f, of k] cs
    have "set cs = \<Union> {set c |c. (k, c) \<in> set ?rs}" by (simp add: codes_at_def)
    with cs show "\<exists>cs. map_of m1 k = Some (Codes cs) \<and>
      set cs = \<Union> {set c |c. (k, c) \<in> set ?rs}" by blast
  qed
  have 3: "\<forall>k. k \<notin> fst ` set ?rs \<longrightarrow> map_of m1 k = map_of ?m k"
    using fold_reg_Inr(2) [OF f] by blast
  from 1 2 3 show "\<exists>a1. parse_expr e a expr = Inr a1 \<and>
      (\<forall>k \<in> fst ` set ?rs. \<exists>cs. map_of (map_account_ids a1) k = Some (Codes cs) \<and>
          set cs = \<Union> {set c |c. (k, c) \<in> set ?rs}) \<and>
      (\<forall>k. k \<notin> fst ` set ?rs \<longrightarrow> map_of (map_account_ids a1) k = map_of ?m k)"
    by simp
qed

lemma crd60_parses_ok: "parses_ok env1 ''crd[60]''" by code_simp
lemma crd60_regs: "expr_regs env1 True ''crd[60]'' = [(([], MODE_VARIATION, None), [Some ''60''])]" by code_simp
lemma bali60_parses_ok: "parses_ok env1 ''bali[60]''" by code_simp
lemma bali60_regs: "expr_regs env1 True ''bali[60]'' = [(([], MODE_INITIAL, None), [Some ''60''])]" by code_simp
lemma finalized1_smart_end: "smart_end finalized1 = True" by code_simp
lemma finalized1_map: "map_account_ids finalized1 = [(([], MODE_VARIATION, None), Ids [7])]" by code_simp

theorem parse_expr_after_done_parsing_witness:
  "done_parsing env1 planned1 = Inr finalized1 \<and>
   parse_expr env1 finalized1 ''crd[60]'' = Inl AttributeError \<and>
   (\<exists>a1. parse_expr env1 finalized1 ''bali[60]'' = Inr a1)"
proof -
  have "\<exists>k \<in> fst ` set (expr_regs env1 (smart_end finalized1) ''crd[60]'').
      k \<in> fst ` set (map_account_ids finalized1)"
    by (simp add: crd60_regs finalized1_smart_end finalized1_map)
  with parse_expr_after_done_parsing [OF finalized1 crd60_parses_ok]
  have 1: "parse_expr env1 finalized1 ''crd[60]'' = Inl AttributeError" by blast
  have "\<forall>k \<in> fst ` set (expr_regs env1 (smart_end finalized1) ''bali[60]'').
      k \<notin> fst ` set (map_account_ids finalized1)"
    by (simp add: bali60_regs finalized1_smart_end finalized1_map)
  with parse_expr_after_done_parsing [OF finalized1 bali60_parses_ok]
  have 2: "\<exists>a1. parse_expr env1 finalized1 ''bali[60]'' = Inr a1" by blast
  from finalized1 1 2 show ?thesis by (intro conjI)
qed

text \<open>
  The claim as stated fails: after \<^verbatim>\<open>done_parsing\<close> a call of \<^verbatim>\<open>parse_expr\<close> with
  a key that is not yet in the map returns normally and extends the map.
\<close>
theorem parse_expr_after_done_parsing_counterexample:
  "parse_expr env1 (new_aep env1 companies1 None (Some RD_n)) ''bal[70]'' = Inr planned1 \<and>
   done_parsing env1 planned1 = Inr finalized1 \<and>
   parse_expr env1 finalized1 ''bali[60]'' =
     Inr (finalized1\<lparr>map_account_ids :=
            [(([], MODE_VARIATION, None), Ids [7]),
             (([], MODE_INITIAL, None), Codes [Some ''60''])]\<rparr>)"
proof (intro conjI)
  show "parse_expr env1 (new_aep env1 companies1 None (Some RD_n)) ''bal[70]'' = Inr planned1"
    by (rule sum_aep_eqI) code_simp
  show "done_parsing env1 planned1 = Inr finalized1"
    by (rule sum_aep_eqI) code_simp
  show "parse_expr env1 finalized1 ''bali[60]'' =
     Inr (finalized1\<lparr>map_account_ids :=
            [(([], MODE_VARIATION, None), Ids [7]),
             (([], MODE_INITIAL, None), Codes [Some ''60''])]\<rparr>)"
    by (rule sum_aep_eqI) code_simp
qed

subsection \<open>Selectors that match no account\<close>









lemma load_account_codes_companies [simp]:
  "companies (load_account_codes e a cs) = companies a"
  by (simp add: load_account_codes_def split: prod.splits)

















subsection \<open>The loops of \<^verbatim>\<open>do_queries\<close>\<close>

lemma rates_at_ok:
  "rates_at e a date_from date_to rd = Inr r \<Longrightarrow> rates_ok e a r"
  by (auto simp add: rates_at_def rates_ok_def split: rate_date.splits sum.splits)

lemma key_rates_ok:
  assumes "key_company_rates e a date_from date_to ex_rate_date r0 = Inr r" and "rates_ok e a r0"
  shows "rates_ok e a r"
  using assms by (auto simp add: key_company_rates_def split: option.splits if_splits dest: rates_at_ok)

lemma key_step_deferred:
  assumes "key_step e a date_from date_to target_move flt aml_model k st = Inr st1"
    and "deferred a k"
  shows "\<exists>r. st1 = st\<lparr>dq_company_rates := r, dq_ends := dq_ends st @ [k]\<rparr> \<and>
             (rates_ok e a (dq_company_rates st) \<longrightarrow> rates_ok e a r)"
proof -
  obtain d m rd where k: "k = (d, m, rd)" by (cases k)
  with assms(2) have dm: "m = MODE_END" "smart_end a" by (auto simp add: deferred_def)
  from assms(1) k dm obtain r where
    r: "key_company_rates e a date_from date_to rd (dq_company_rates st) = Inr r"
    and s: "st1 = st\<lparr>dq_company_rates := r, dq_ends := dq_ends st @ [k]\<rparr>"
    by (auto simp add: key_step_def split: sum.splits)
  from key_rates_ok [OF r] s show ?thesis by blast
qed

lemma key_step_queried:
  assumes "key_step e a date_from date_to target_move flt aml_model k st = Inr st1"
    and "\<not> deferred a k"
  shows "\<exists>r dbm dta.
           st1 = st\<lparr>dq_company_rates := r, dq_data := (dq_data st)(k3 k := dta),
                    dq_domain_by_mode := dbm,
                    dq_log := dq_log st @ [(k, key_domain a k dbm flt)]\<rparr> \<and>
           key_rows e a aml_model (fst (snd k)) r (key_domain a k dbm flt) (dq_data st (k3 k))
             = Inr dta \<and>
           (rates_ok e a (dq_company_rates st) \<longrightarrow> rates_ok e a r)"
proof -
  obtain d m rd where k: "k = (d, m, rd)" by (cases k)
  with assms(2) have dm: "\<not> (m = MODE_END \<and> smart_end a)" by (auto simp add: deferred_def)
  from assms(1) k dm obtain r where
    r: "key_company_rates e a date_from date_to rd (dq_company_rates st) = Inr r"
    by (auto simp add: key_step_def split: sum.splits)
  from assms(1) k dm r obtain dbm where
    b: "key_domain_by_mode e date_from date_to target_move m (dq_domain_by_mode st) = Inr dbm"
    by (auto simp add: key_step_def split: sum.splits)
  from assms(1) k dm r b obtain dta where
    q: "key_rows e a aml_model m r (key_domain a k dbm flt) (dq_data st (K3 d m rd)) = Inr dta"
    by (auto simp add: key_step_def split: sum.splits)
  from assms(1) k dm r b q have
    "st1 = st\<lparr>dq_company_rates := r, dq_data := (dq_data st)(k3 k := dta),
                    dq_domain_by_mode := dbm,
                    dq_log := dq_log st @ [(k, key_domain a k dbm flt)]\<rparr>"
    by (simp add: key_step_def k3_def)
  with q k key_rates_ok [OF r] show ?thesis by (auto simp add: k3_def)
qed

lemma k3_inj: "(k3 k = k3 k1) = (k = k1)"
  by (cases k, cases k1) (auto simp add: k3_def)

lemma keys_log:
  assumes "fold_err (key_step e a date_from date_to target_move flt aml_model) ks st = Inr st1"
  shows "\<exists>l. dq_log st1 = dq_log st @ l \<and> map fst l = filter (\<lambda>k. \<not> deferred a k) ks"
  using assms
proof (induction ks arbitrary: st)
  case Nil
  then show ?case by simp
next
  case (Cons k ks)
  from Cons.prems obtain st2 where
    s: "key_step e a date_from date_to target_move flt aml_model k st = Inr st2" and
    f: "fold_err (key_step e a date_from date_to target_move flt aml_model) ks st2 = Inr st1"
    by (auto split: sum.splits)
  from Cons.IH [OF f] obtain l where
    l: "dq_log st1 = dq_log st2 @ l" "map fst l = filter (\<lambda>k. \<not> deferred a k) ks" by blast
  show ?case
  proof (cases "deferred a k")
    case True
    from key_step_deferred [OF s True] have "dq_log st2 = dq_log st" by auto
    with l True show ?thesis by simp
  next
    case False
    from key_step_queried [OF s False] obtain dm where "dq_log st2 = dq_log st @ [(k, dm)]"
      by auto
    with l False show ?thesis by simp
  qed
qed

lemma keys_ends:
  assumes "fold_err (key_step e a date_from date_to target_move flt aml_model) ks st = Inr st1"
  shows "dq_ends st1 = dq_ends st @ filter (deferred a) ks"
  using assms
proof (induction ks arbitrary: st)
  case Nil
  then show ?case by simp
next
  case (Cons k ks)
  from Cons.prems obtain st2 where
    s: "key_step e a date_from date_to target_move flt aml_model k st = Inr st2" and
    f: "fold_err (key_step e a date_from date_to target_move flt aml_model) ks st2 = Inr st1"
    by (auto split: sum.splits)
  note ih = Cons.IH [OF f]
  show ?case
  proof (cases "deferred a k")
    case True
    from key_step_deferred [OF s True] have "dq_ends st2 = dq_ends st @ [k]" by auto
    with ih True show ?thesis by simp
  next
    case False
    from key_step_queried [OF s False] have "dq_ends st2 = dq_ends st" by auto
    with ih False show ?thesis by simp
  qed
qed

lemma keys_rates_ok:
  assumes "fold_err (key_step e a date_from date_to target_move flt aml_model) ks st = Inr st1"
    and "rates_ok e a (dq_company_rates st)"
  shows "rates_ok e a (dq_company_rates st1)"
  using assms
proof (induction ks arbitrary: st)
  case Nil
  then show ?case by simp
next
  case (Cons k ks)
  from Cons.prems obtain st2 where
    s: "key_step e a date_from date_to target_move flt aml_model k st = Inr st2" and
    f: "fold_err (key_step e a date_from date_to target_move flt aml_model) ks st2 = Inr st1"
    by (auto split: sum.splits)
  have "rates_ok e a (dq_company_rates st2)"
  proof (cases "deferred a k")
    case True
    from key_step_deferred [OF s True] Cons.prems(2) show ?thesis by auto
  next
    case False
    from key_step_queried [OF s False] Cons.prems(2) show ?thesis by auto
  qed
  then show ?case by (rule Cons.IH [OF f])
qed

lemma keys_data_other:
  assumes "fold_err (key_step e a date_from date_to target_move flt aml_model) ks st = Inr st1"
    and "\<forall>k \<in> set ks. deferred a k \<or> pk \<noteq> k3 k"
  shows "dq_data st1 pk = dq_data st pk"
  using assms
proof (induction ks arbitrary: st)
  case Nil
  then show ?case by simp
next
  case (Cons k ks)
  from Cons.prems obtain st2 where
    s: "key_step e a date_from date_to target_move flt aml_model k st = Inr st2" and
    f: "fold_err (key_step e a date_from date_to target_move flt aml_model) ks st2 = Inr st1"
    by (auto split: sum.splits)
  from Cons.prems(2) have "dq_data st1 pk = dq_data st2 pk" by (intro Cons.IH [OF f]) simp
  moreover have "dq_data st2 pk = dq_data st pk"
  proof (cases "deferred a k")
    case True
    from key_step_deferred [OF s True] show ?thesis by auto
  next
    case False
    with Cons.prems(2) have "pk \<noteq> k3 k" by simp
    with key_step_queried [OF s False] show ?thesis by auto
  qed
  ultimately show ?case by simp
qed

lemma keys_data_queried:
  assumes "fold_err (key_step e a date_from date_to target_move flt aml_model) ks st = Inr st1"
    and "distinct ks" and "k \<in> set ks" and "\<not> deferred a k"
    and "rates_ok e a (dq_company_rates st)"
  shows "\<exists>r dbm. rates_ok e a r \<and> (k, key_domain a k dbm flt) \<in> set (dq_log st1) \<and>
           key_rows e a aml_model (fst (snd k)) r (key_domain a k dbm flt) (dq_data st (k3 k))
             = Inr (dq_data st1 (k3 k))"
  using assms
proof (induction ks arbitrary: st)
  case Nil
  then show ?case by simp
next
  case (Cons k0 ks)
  from Cons.prems(1) obtain st2 where
    s: "key_step e a date_from date_to target_move flt aml_model k0 st = Inr st2" and
    f: "fold_err (key_step e a date_from date_to target_move flt aml_model) ks st2 = Inr st1"
    by (auto split: sum.splits)
  from keys_log [OF f] have sub: "set (dq_log st2) \<subseteq> set (dq_log st1)" by auto
  show ?case
  proof (cases "k = k0")
    case True
    with Cons.prems(4) have nd: "\<not> deferred a k0" by simp
    from key_step_queried [OF s nd] Cons.prems(5) obtain r dbm dta where
      st2: "st2 = st\<lparr>dq_company_rates := r, dq_data := (dq_data st)(k3 k0 := dta),
                    dq_domain_by_mode := dbm,
                    dq_log := dq_log st @ [(k0, key_domain a k0 dbm flt)]\<rparr>" and
      q: "key_rows e a aml_model (fst (snd k0)) r (key_domain a k0 dbm flt) (dq_data st (k3 k0))
             = Inr dta" and ro: "rates_ok e a r"
      by blast
    from Cons.prems(2) True have "\<forall>k1 \<in> set ks. deferred a k1 \<or> k3 k \<noteq> k3 k1"
      by (auto simp add: k3_inj)
    from keys_data_other [OF f this] st2 True have "dq_data st1 (k3 k) = dta" by simp
    moreover from st2 sub have "(k0, key_domain a k0 dbm flt) \<in> set (dq_log st1)" by auto
    ultimately show ?thesis using q ro True by blast
  next
    case False
    with Cons.prems(3) have in_ks: "k \<in> set ks" by simp
    from Cons.prems(2) have dist: "distinct ks" by simp
    have 2: "rates_ok e a (dq_company_rates st2) \<and> dq_data st2 (k3 k) = dq_data st (k3 k)"
    proof (cases "deferred a k0")
      case True
      from key_step_deferred [OF s True] Cons.prems(5) show ?thesis by auto
    next
      case nd: False
      from False have "k3 k \<noteq> k3 k0" by (simp add: k3_inj)
      with key_step_queried [OF s nd] Cons.prems(5) show ?thesis by auto
    qed
    from Cons.IH [OF f dist in_ks Cons.prems(4)] 2 show ?thesis by simp
  qed
qed

lemma fold_fun_upd_alist:
  "fold (\<lambda>x dt. dt(K := AList.update x (f x) (dt K))) xs dat =
   dat(K := fold (\<lambda>x al. AList.update x (f x) al) xs (dat K))"
  by (induction xs arbitrary: dat) simp_all

lemma map_of_fold_update:
  "map_of (fold (\<lambda>x al. AList.update x (f x) al) xs al) y =
   (if y \<in> set xs then Some (f y) else map_of al y)"
  by (induction xs arbitrary: al) (auto simp add: update_conv')

lemma ends_step_eq:
  "ends_step (d, m, rd) dat =
   dat(K3 d m rd := fold (\<lambda>x al. AList.update x (end_pair dat d rd x) al)
        (set_update (set_update [] (map fst (dat (K3 d MODE_INITIAL rd))))
           (map fst (dat (K3 d MODE_VARIATION rd))))
        (dat (K3 d m rd)))"
  by (simp add: ends_step_def Let_def fold_fun_upd_alist end_pair_def)

lemma ends_step_other:
  "pk \<noteq> k3 k \<Longrightarrow> ends_step k dat pk = dat pk"
  by (cases k) (simp add: ends_step_eq k3_def)

lemma ends_step_at:
  "map_of (ends_step (d, m, rd) dat (K3 d m rd)) x =
   (if x \<in> end_accounts dat d rd then Some (end_pair dat d rd x) else map_of (dat (K3 d m rd)) x)"
  by (simp add: ends_step_eq map_of_fold_update set_set_update end_accounts_def)

lemma agree_end_pair: "agree ref dat \<Longrightarrow> end_pair dat d rd = end_pair ref d rd"
  by (rule ext) (simp add: agree_def end_pair_def)

lemma agree_end_accounts: "agree ref dat \<Longrightarrow> end_accounts dat d rd = end_accounts ref d rd"
  by (simp add: agree_def end_accounts_def)

lemma ends_step_agree:
  assumes "agree ref dat" and "fst (snd k) = MODE_END"
  shows "agree ref (ends_step k dat)"
  using assms by (cases k) (auto simp add: agree_def ends_step_eq)

lemma ends_step_end_ok:
  assumes "agree ref dat" and "fst (snd k) = MODE_END"
    and "k = (d, MODE_END, rd) \<or> end_ok ref dat d rd"
    and "\<forall>x. x \<notin> end_accounts ref d rd \<longrightarrow> map_of (dat (K3 d MODE_END rd)) x = None"
  shows "end_ok ref (ends_step k dat) d rd"
proof (cases "k = (d, MODE_END, rd)")
  case True
  with assms(1,4) show ?thesis
    by (simp add: end_ok_def ends_step_at agree_end_pair agree_end_accounts)
next
  case False
  then have "K3 d MODE_END rd \<noteq> k3 k" by (cases k) (auto simp add: k3_def)
  with assms(3) False show ?thesis by (simp add: end_ok_def ends_step_other)
qed

lemma ends_step_absent:
  assumes "agree ref dat"
    and "\<forall>x. x \<notin> end_accounts ref d rd \<longrightarrow> map_of (dat (K3 d MODE_END rd)) x = None"
  shows "\<forall>x. x \<notin> end_accounts ref d rd \<longrightarrow> map_of (ends_step k dat (K3 d MODE_END rd)) x = None"
proof (cases "k = (d, MODE_END, rd)")
  case True
  with assms show ?thesis by (simp add: ends_step_at agree_end_accounts)
next
  case False
  then have "K3 d MODE_END rd \<noteq> k3 k" by (cases k) (auto simp add: k3_def)
  with assms(2) show ?thesis by (simp add: ends_step_other)
qed

lemma fold_ends:
  assumes "agree ref dat" and "\<forall>k \<in> set ends. fst (snd k) = MODE_END"
    and "(d, MODE_END, rd) \<in> set ends \<or> end_ok ref dat d rd"
    and "\<forall>x. x \<notin> end_accounts ref d rd \<longrightarrow> map_of (dat (K3 d MODE_END rd)) x = None"
  shows "end_ok ref (fold ends_step ends dat) d rd \<and> agree ref (fold ends_step ends dat)"
  using assms
proof (induction ends arbitrary: dat)
  case Nil
  then show ?case by simp
next
  case (Cons k ends)
  from Cons.prems(2) have m: "fst (snd k) = MODE_END" by simp
  have 1: "agree ref (ends_step k dat)" by (rule ends_step_agree [OF Cons.prems(1) m])
  have 4: "\<forall>x. x \<notin> end_accounts ref d rd \<longrightarrow> map_of (ends_step k dat (K3 d MODE_END rd)) x = None"
    by (rule ends_step_absent [OF Cons.prems(1,4)])
  have 3: "(d, MODE_END, rd) \<in> set ends \<or> end_ok ref (ends_step k dat) d rd"
  proof (cases "(d, MODE_END, rd) \<in> set ends")
    case True
    then show ?thesis by simp
  next
    case False
    with Cons.prems(3) have "k = (d, MODE_END, rd) \<or> end_ok ref dat d rd" by auto
    from ends_step_end_ok [OF Cons.prems(1) m this Cons.prems(4)] show ?thesis by simp
  qed
  from Cons.prems(2) have 2: "\<forall>k \<in> set ends. fst (snd k) = MODE_END" by simp
  from Cons.IH [OF 1 2 3 4] show ?case by simp
qed

lemma do_queries_Inr_st:
  assumes "do_queries e a date_from date_to target_move flt aml_model = Inr (a1, lg)"
  shows "\<exists>r st. initial_rates e a date_from date_to = Inr r \<and>
           fold_err (key_step e a date_from date_to target_move flt aml_model)
             (map fst (map_account_ids a)) (dq_init r) = Inr st \<and>
           a1 = a\<lparr>data := Some (fold ends_step (dq_ends st) (dq_data st))\<rparr> \<and> lg = dq_log st"
  using assms by (auto simp add: do_queries_def dq_init_def split: sum.splits)

lemma initial_rates_ok:
  "initial_rates e a date_from date_to = Inr r \<Longrightarrow> rates_ok e a r"
  by (auto simp add: initial_rates_def rates_ok_def split: option.splits rate_date.splits
      dest: rates_at_ok)

text \<open>
  C1. With \<^verbatim>\<open>smart_end\<close>, for every key of the map whose mode is the ending balance,
  \<^verbatim>\<open>do_queries\<close> leaves under that key exactly the accounts that are in the result of
  the initial balance or of the variation for the same domain and rate date, each with the
  debit and the credit that are the sums of the two sides; a side that is missing counts as
  \<open>AccountingNone\<close>, which is neutral for the addition.
\<close>
theorem smart_end_is_initial_plus_variation:
  assumes "do_queries e a date_from date_to target_move flt aml_model = Inr (a1, lg)"
    and "smart_end a"
    and "(d, MODE_END, rd) \<in> set (map fst (map_account_ids a))"
  shows "\<exists>dat. data a1 = Some dat \<and>
           (\<forall>x. map_of (dat (K3 d MODE_END rd)) x =
              (if x \<in> fst ` set (dat (K3 d MODE_INITIAL rd)) \<union>
                      fst ` set (dat (K3 d MODE_VARIATION rd))
               then Some (an_add (fst (get_pair (dat (K3 d MODE_INITIAL rd)) x))
                                 (fst (get_pair (dat (K3 d MODE_VARIATION rd)) x)),
                          an_add (snd (get_pair (dat (K3 d MODE_INITIAL rd)) x))
                                 (snd (get_pair (dat (K3 d MODE_VARIATION rd)) x)))
               else None)) \<and>
           an_add AccountingNone AccountingNone = AccountingNone \<and>
           (\<forall>v. an_add AccountingNone v = v \<and> an_add v AccountingNone = v)"
proof -
  let ?ks = "map fst (map_account_ids a)"
  from do_queries_Inr_st [OF assms(1)] obtain r st where
    f: "fold_err (key_step e a date_from date_to target_move flt aml_model) ?ks (dq_init r) = Inr st"
    and a1: "a1 = a\<lparr>data := Some (fold ends_step (dq_ends st) (dq_data st))\<rparr>"
    by blast
  let ?I = "dq_data st" and ?F = "fold ends_step (dq_ends st) (dq_data st)"
  from keys_ends [OF f] have ends: "dq_ends st = filter (deferred a) ?ks"
    by (simp add: dq_init_def)
  then have m: "\<forall>k \<in> set (dq_ends st). fst (snd k) = MODE_END"
    by (simp add: deferred_def)
  from ends assms(2,3) have k: "(d, MODE_END, rd) \<in> set (dq_ends st)"
    by (simp add: deferred_def)
  have "\<forall>k \<in> set ?ks. deferred a k \<or> K3 d MODE_END rd \<noteq> k3 k"
  proof
    fix k assume "k \<in> set ?ks"
    show "deferred a k \<or> K3 d MODE_END rd \<noteq> k3 k"
      using assms(2) by (cases k) (auto simp add: deferred_def k3_def)
  qed
  from keys_data_other [OF f this] have e: "?I (K3 d MODE_END rd) = []"
    by (simp add: dq_init_def)
  have ag: "agree ?I ?I" by (simp add: agree_def)
  from e have ab: "\<forall>x. x \<notin> end_accounts ?I d rd \<longrightarrow> map_of (?I (K3 d MODE_END rd)) x = None"
    by simp
  from k have k': "(d, MODE_END, rd) \<in> set (dq_ends st) \<or> end_ok ?I ?I d rd" by simp
  from fold_ends [OF ag m k' ab] have ok: "end_ok ?I ?F d rd" and ag2: "agree ?I ?F" by auto
  from ok agree_end_pair [OF ag2, of d rd] agree_end_accounts [OF ag2, of d rd]
  have "\<forall>x. map_of (?F (K3 d MODE_END rd)) x =
      (if x \<in> end_accounts ?F d rd then Some (end_pair ?F d rd x) else None)"
    by (simp add: end_ok_def)
  then have "\<forall>x. map_of (?F (K3 d MODE_END rd)) x =
              (if x \<in> fst ` set (?F (K3 d MODE_INITIAL rd)) \<union>
                      fst ` set (?F (K3 d MODE_VARIATION rd))
               then Some (an_add (fst (get_pair (?F (K3 d MODE_INITIAL rd)) x))
                                 (fst (get_pair (?F (K3 d MODE_VARIATION rd)) x)),
                          an_add (snd (get_pair (?F (K3 d MODE_INITIAL rd)) x))
                                 (snd (get_pair (?F (K3 d MODE_VARIATION rd)) x)))
               else None)"
    by (simp add: end_accounts_def end_pair_def)
  moreover have "\<forall>v. an_add AccountingNone v = v \<and> an_add v AccountingNone = v"
  proof
    fix v show "an_add AccountingNone v = v \<and> an_add v AccountingNone = v" by (cases v) simp_all
  qed
  ultimately show ?thesis using a1 by simp
qed

lemma finalized_bale:
  "(case init env1 companies1 None (Some RD_n) of
      Inl err \<Rightarrow> Inl err
    | Inr a0 \<Rightarrow>
        (case parse_expr env1 a0 ''bale[70]'' of
           Inl err \<Rightarrow> Inl err | Inr a \<Rightarrow> done_parsing env1 a)) = Inr finalized_bale"
  by (rule sum_aep_eqI) code_simp

lemma do_queries_bale:
  "case do_queries env1 finalized_bale 100 190 ''posted'' None None of
     Inl err \<Rightarrow> False
   | Inr (a1, lg) \<Rightarrow>
       (case data a1 of
          None \<Rightarrow> False
        | Some dat \<Rightarrow> dat (K3 [] MODE_INITIAL None) = [(7, Num 100, Num 0)] \<and>
                     dat (K3 [] MODE_VARIATION None) = [(7, Num 50, Num 20)] \<and>
                     dat (K3 [] MODE_END None) = [(7, Num 150, Num 20)])"
  by code_simp

theorem smart_end_is_initial_plus_variation_witness:
  "case do_queries env1 finalized_bale 100 190 ''posted'' None None of
     Inl err \<Rightarrow> False
   | Inr (a1, lg) \<Rightarrow>
       (case data a1 of
          None \<Rightarrow> False
        | Some dat \<Rightarrow>
            map_of (dat (K3 [] MODE_INITIAL None)) 7 = Some (Num 100, Num 0) \<and>
            map_of (dat (K3 [] MODE_VARIATION None)) 7 = Some (Num 50, Num 20) \<and>
            map_of (dat (K3 [] MODE_END None)) 7 = Some (Num (100 + 50), Num (0 + 20)) \<and>
            map_of (dat (K3 [] MODE_END None)) 8 = None)"
proof (cases "do_queries env1 finalized_bale 100 190 ''posted'' None None")
  case (Inl err)
  with do_queries_bale show ?thesis by simp
next
  case (Inr p)
  obtain a1 lg where p: "p = (a1, lg)" by (cases p)
  have s: "smart_end finalized_bale" by code_simp
  have k: "([], MODE_END, None) \<in> set (map fst (map_account_ids finalized_bale))" by code_simp
  from Inr p have q: "do_queries env1 finalized_bale 100 190 ''posted'' None None = Inr (a1, lg)"
    by simp
  from smart_end_is_initial_plus_variation [OF q s k] obtain dat where
    d: "data a1 = Some dat" and
    e: "\<And>x. map_of (dat (K3 [] MODE_END None)) x =
              (if x \<in> fst ` set (dat (K3 [] MODE_INITIAL None)) \<union>
                      fst ` set (dat (K3 [] MODE_VARIATION None))
               then Some (an_add (fst (get_pair (dat (K3 [] MODE_INITIAL None)) x))
                                 (fst (get_pair (dat (K3 [] MODE_VARIATION None)) x)),
                          an_add (snd (get_pair (dat (K3 [] MODE_INITIAL None)) x))
                                 (snd (get_pair (dat (K3 [] MODE_VARIATION None)) x)))
               else None)"
    by blast
  from do_queries_bale q d have
    i: "dat (K3 [] MODE_INITIAL None) = [(7, Num 100, Num 0)]" and
    v: "dat (K3 [] MODE_VARIATION None) = [(7, Num 50, Num 20)]" by simp_all
  from e [of 7] e [of 8] i v q d show ?thesis by (simp add: get_pair_def)
qed

subsection \<open>One query for each key\<close>









lemma init_env1: "init env1 companies1 None (Some RD_n) = Inr (new_aep env1 companies1 (Some 1) (Some RD_n))"
  by (rule sum_aep_eqI) code_simp





end
